theory Spec2Isabelle
  imports
    Complex_Main
    "HOL-Library.Multiset"
    "HOL-Library.Mapping"
    "HOL-Library.AList_Mapping"
    "HOL-Library.Signed_Division"
    "HOL-Library.Char_ord"
    "HOL-Library.List_Lexorder"
    "HOL-Library.Product_Lexorder"
begin

chapter \<open>otpl-service-check: the Go core and the legacy Python check\<close>

text \<open>
  The repository holds two implementations of the same monitoring check: the Go program
  (\<^verbatim>\<open>discovery.go\<close>, \<^verbatim>\<open>check.go\<close>, \<^verbatim>\<open>accumulator.go\<close>, \<^verbatim>\<open>main.go\<close>) and the older
  Python script. Both are embedded here, function by function. Network traffic is the
  environment: the outcome of every HTTP exchange is an argument of the model, and the
  order in which concurrent probes complete is an explicit schedule.
\<close>

section \<open>Shared data: announcements\<close>

text \<open>
  An announcement is one element of the JSON array served by the discovery server. The
  metadata is a string-keyed object with arbitrary JSON values, or absent; as in a Go
  map and a Python dict, two metadata objects are equal when they hold the same keys with
  the same values. Numbers are restricted to integers (no floating point), and an object
  nested inside a metadata value keeps the order of its members.
\<close>

datatype jvalue =
    JString string
  | JNumber int
  | JBool bool
  | JNull
  | JArray "jvalue list"
  | JObject "(string \<times> jvalue) list"

record announcement =
  announcementId :: string
  serviceType :: string
  serviceUri :: string
  environment :: string
  metadata :: "(string, jvalue) mapping option"

definition tokenkey :: string where
  "tokenkey = ''server-token''"

section \<open>Decimal rendering of integers\<close>

text \<open>What \<^verbatim>\<open>%d\<close> (Go) and \<^verbatim>\<open>%s\<close> of an int (Python) print.\<close>

function show_nat :: "nat \<Rightarrow> string" where
  "show_nat n =
     (if n < 10 then [''0123456789'' ! n]
      else show_nat (n div 10) @ [''0123456789'' ! (n mod 10)])"
  by pat_completeness auto
termination
  by (relation "measure (\<lambda>n. n)") auto

declare show_nat.simps [simp del]

definition show_int :: "int \<Rightarrow> string" where
  "show_int i = (if i < 0 then ''-'' @ show_nat (nat (- i)) else show_nat (nat i))"

section \<open>The Go core\<close>

subsection \<open>discovery.go\<close>

text \<open>
  \<^verbatim>\<open>Announcement.serverToken\<close>: the value under the token key when it is a string, the
  empty string otherwise (no metadata, no such key, or a value of another type).
\<close>

definition serverToken :: "announcement \<Rightarrow> string" where
  "serverToken a =
     (case metadata a of
        None \<Rightarrow> ''''
      | Some m \<Rightarrow>
          (case Mapping.lookup m tokenkey of
             Some (JString s) \<Rightarrow> s
           | _ \<Rightarrow> ''''))"

subsection \<open>accumulator.go\<close>

text \<open>
  \<^verbatim>\<open>nagios.Status\<close> comes from a library; the program only ever uses its four predefined
  values, which are the constructors here. \<^verbatim>\<open>statusToOrd\<close> has a default branch
  returning \<open>-1\<close> for any other value; no value of this type reaches it.
\<close>

datatype Status = StatusOK | StatusUnknown | StatusWarn | StatusCrit

datatype perfdata = NewPerfData string int string

record result =
  status :: Status
  message :: string
  perf :: "perfdata list"

record resultAccumulator =
  worstStatus :: Status
  results :: "result list"

definition newAccumulator :: resultAccumulator where
  "newAccumulator = \<lparr>worstStatus = StatusOK, results = []\<rparr>"

fun statusToOrd :: "Status \<Rightarrow> int" where
  "statusToOrd StatusOK = 0"
| "statusToOrd StatusUnknown = 1"
| "statusToOrd StatusWarn = 2"
| "statusToOrd StatusCrit = 3"

definition worseOf :: "Status \<Rightarrow> Status \<Rightarrow> Status" where
  "worseOf a b = (if statusToOrd b > statusToOrd a then b else a)"

text \<open>\<^verbatim>\<open>add\<close> runs under the accumulator's mutex, so it is one atomic step.\<close>

definition add :: "resultAccumulator \<Rightarrow> result \<Rightarrow> resultAccumulator" where
  "add a r = \<lparr>worstStatus = worseOf (worstStatus a) (status r), results = results a @ [r]\<rparr>"

text \<open>
  \<^verbatim>\<open>updateCheck\<close> copies the verdict into the Nagios check: the status, the performance
  data of all results in order, and the formatted messages.
\<close>

definition updateCheck ::
  "resultAccumulator \<Rightarrow> (string list \<Rightarrow> string) \<Rightarrow> Status \<times> perfdata list \<times> string" where
  "updateCheck a formatter =
     (worstStatus a, concat (map perf (results a)), formatter (map message (results a)))"

subsection \<open>check.go\<close>

record check =
  discoveryState :: "announcement list"
  service :: string
  endpoint :: string
  skipHealthcheck :: bool
  warn :: int
  crit :: int
  headers :: "(string \<times> string) list"

text \<open>
  The response of one probe. The resolved URL is kept as its text; the duration is in
  nanoseconds, as \<^verbatim>\<open>time.Duration\<close> is.
\<close>

record response =
  resp_endpoint :: string
  contentType :: string
  body :: string
  statusCode :: int
  duration :: int

definition okMsg :: "int \<Rightarrow> string \<Rightarrow> string" where
  "okMsg cnt svc = show_int cnt @ '' instances of '' @ svc @ '' found''"

definition notOkMsg :: "int \<Rightarrow> string \<Rightarrow> int \<Rightarrow> string" where
  "notOkMsg cnt svc thr =
     show_int cnt @ '' instances of '' @ svc @ '' found, expected at least '' @ show_int thr"

text \<open>
  The counting loop of \<^verbatim>\<open>checkQuota\<close>. \<^verbatim>\<open>seen\<close> is a Go \<^verbatim>\<open>map[string]bool\<close>: reading a
  missing key gives \<^verbatim>\<open>false\<close>.
\<close>

fun countQuota :: "announcement list \<Rightarrow> (string \<rightharpoonup> bool) \<Rightarrow> int \<Rightarrow> int" where
  "countQuota [] seen cnt = cnt"
| "countQuota (ann # anns) seen cnt =
     (let tok = serverToken ann;
          ok = (case seen tok of Some b \<Rightarrow> b | None \<Rightarrow> False)
      in if tok = '''' \<or> (tok \<noteq> '''' \<and> \<not> ok)
         then countQuota anns (seen(tok \<mapsto> True)) (cnt + 1)
         else countQuota anns seen cnt)"

definition quotaResult :: "check \<Rightarrow> int \<Rightarrow> result" where
  "quotaResult c cnt =
     (let res =
        (if crit c > 0 \<and> cnt < crit c
         then \<lparr>status = StatusCrit, message = notOkMsg cnt (service c) (crit c), perf = []\<rparr>
         else if warn c > 0 \<and> cnt < warn c
         then \<lparr>status = StatusWarn, message = notOkMsg cnt (service c) (warn c), perf = []\<rparr>
         else \<lparr>status = StatusOK, message = okMsg cnt (service c), perf = []\<rparr>)
      in res\<lparr>perf := perf res @ [NewPerfData ''instances'' cnt '''']\<rparr>)"

definition checkQuota :: "check \<Rightarrow> announcement list \<Rightarrow> resultAccumulator \<Rightarrow> resultAccumulator" where
  "checkQuota c anns acc = add acc (quotaResult c (countQuota anns Map.empty 0))"

text \<open>Go's integer division truncates toward zero: \<open>sdiv\<close>.\<close>

definition statusFor :: "int \<Rightarrow> Status" where
  "statusFor code =
     (let family = code sdiv 100
      in if family = 2 then StatusOK
         else if family = 4 then StatusWarn
         else StatusCrit)"

definition Milliseconds :: "int \<Rightarrow> int" where
  "Milliseconds d = d sdiv 1000000"

definition formatMessage :: "response \<Rightarrow> string" where
  "formatMessage resp =
     ''---\<newline>status code: '' @ show_int (statusCode resp)
     @ ''\<newline>duration: '' @ show_int (Milliseconds (duration resp))
     @ '' ms\<newline>endpoint: '' @ resp_endpoint resp @ ''\<newline>''"

text \<open>
  \<^verbatim>\<open>checkAnnouncement\<close>. What \<^verbatim>\<open>fetchAnnouncement\<close> returned is the argument \<open>fetched\<close>:
  \<open>Inl err\<close> is any of its error returns (URL parsing, building the request, the
  transport, reading the body) with the error's text, \<open>Inr resp\<close> a response.
\<close>

definition checkAnnouncement ::
  "announcement \<Rightarrow> string + response \<Rightarrow> resultAccumulator \<Rightarrow> resultAccumulator" where
  "checkAnnouncement ann fetched acc =
     (case fetched of
        Inl err \<Rightarrow>
          add acc \<lparr>status = StatusWarn,
                   message = ''failed to fetch announced endpoint '' @ serviceUri ann @ '': '' @ err,
                   perf = []\<rparr>
      | Inr resp \<Rightarrow>
          add acc \<lparr>status = statusFor (statusCode resp),
                   message = formatMessage resp,
                   perf = []\<rparr>)"

text \<open>The result that \<^verbatim>\<open>checkAnnouncement\<close> hands to \<^verbatim>\<open>acc.add\<close>.\<close>

definition probeResult :: "announcement \<Rightarrow> string + response \<Rightarrow> result" where
  "probeResult ann fetched =
     (case fetched of
        Inl err \<Rightarrow>
          \<lparr>status = StatusWarn,
           message = ''failed to fetch announced endpoint '' @ serviceUri ann @ '': '' @ err,
           perf = []\<rparr>
      | Inr resp \<Rightarrow>
          \<lparr>status = statusFor (statusCode resp), message = formatMessage resp, perf = []\<rparr>)"

text \<open>
  \<^verbatim>\<open>checkInstances\<close> starts one goroutine per announcement and waits for all of them.
  Each goroutine touches shared state once, in its single \<^verbatim>\<open>acc.add\<close>; an execution is
  therefore fixed by the order in which the goroutines reach that call. \<open>sched\<close> lists
  the goroutines (by position in \<open>anns\<close>) in that order, and \<open>net i\<close> is what
  \<^verbatim>\<open>fetchAnnouncement\<close> returned to goroutine \<open>i\<close>. A schedule of a real execution is
  a permutation of the positions.
\<close>

definition valid_sched :: "nat list \<Rightarrow> nat \<Rightarrow> bool" where
  "valid_sched sched n = (mset sched = mset [0..<n])"

definition checkInstances ::
  "(nat \<Rightarrow> string + response) \<Rightarrow> nat list \<Rightarrow> announcement list \<Rightarrow>
   resultAccumulator \<Rightarrow> resultAccumulator" where
  "checkInstances net sched anns acc =
     foldl (\<lambda>acc i. checkAnnouncement (anns ! i) (net i) acc) acc sched"

definition matching :: "check \<Rightarrow> announcement list" where
  "matching c = filter (\<lambda>a. serviceType a = service c) (discoveryState c)"

definition run ::
  "check \<Rightarrow> (nat \<Rightarrow> string + response) \<Rightarrow> nat list \<Rightarrow> resultAccumulator \<Rightarrow> resultAccumulator" where
  "run c net sched acc =
     (let acc1 = checkQuota c (matching c) acc
      in if \<not> skipHealthcheck c then checkInstances net sched (matching c) acc1 else acc1)"

section \<open>The legacy Python check\<close>

text \<open>
  Exceptions that escape \<^verbatim>\<open>Main.run\<close> are values: a function that can raise returns
  \<open>py_exception + 'a\<close>. The script's last lines turn any of them into exit code 3.
\<close>

datatype py_exception = KeyError | TypeError | IndexError

text \<open>
  Library functions the script calls and whose results only end up in message texts are
  fields of \<open>pylib\<close>: \<^verbatim>\<open>"%.3f" % x\<close>, \<^verbatim>\<open>urljoin\<close>, and the response-body renderer
  \<^verbatim>\<open>Parser.parse\<close> (which rests on \<^verbatim>\<open>json.loads\<close> and \<^verbatim>\<open>json.dumps\<close>).
\<close>

record pylib =
  fmt3 :: "real \<Rightarrow> string"
  urljoin :: "string \<Rightarrow> string \<Rightarrow> string"
  parse :: "string option \<Rightarrow> string \<Rightarrow> string"

text \<open>The parsed command line (\<^verbatim>\<open>self.args\<close>), as far as \<^verbatim>\<open>run\<close> reads it.\<close>

record args =
  args_service :: string
  args_endpoint :: string
  do_healthcheck :: bool
  timeout :: real
  critical_fewer :: int
  warn_fewer :: int

subsection \<open>Result\<close>

record Result =
  code :: int
  message_py :: string
  announcement :: "announcement option"

definition codemap :: "int \<rightharpoonup> string" where
  "codemap = [2 \<mapsto> ''critical'', 1 \<mapsto> ''warning'', 0 \<mapsto> ''ok'']"

text \<open>\<^verbatim>\<open>Result.__init__\<close>: \<^verbatim>\<open>codemap[code]\<close> raises \<^verbatim>\<open>KeyError\<close> for any other code.\<close>

definition Result_init ::
  "int \<Rightarrow> string \<Rightarrow> string \<Rightarrow> announcement option \<Rightarrow> py_exception + Result" where
  "Result_init c topic m ann =
     (case codemap c of
        None \<Rightarrow> Inl KeyError
      | Some state \<Rightarrow>
          Inr \<lparr>code = c, message_py = topic @ '' '' @ state @ '': '' @ m, announcement = ann\<rparr>)"

definition create_with_uri ::
  "int \<Rightarrow> string \<Rightarrow> string \<Rightarrow> string \<Rightarrow> announcement option \<Rightarrow> py_exception + Result" where
  "create_with_uri c topic uri m ann =
     Result_init c topic (m @ ''\<newline>check URI '' @ uri) ann"

subsection \<open>Probing one endpoint\<close>

text \<open>
  The exception classes \<^verbatim>\<open>handle_response\<close> tells apart, in the order of its
  \<^verbatim>\<open>isinstance\<close> tests: \<open>ConnectionError\<close> stands for a connection error that is not a
  connect timeout (refused connection, failed name lookup, TLS failure).
\<close>

datatype probe_exception = ConnectTimeout | ReadTimeout | ConnectionError | OtherException

text \<open>What \<^verbatim>\<open>requests.get\<close> did for one probe: a response, or an exception with its traceback.\<close>

datatype http_outcome =
    Http_response int string real "string option"
  | Http_raised probe_exception string

text \<open>
  \<^verbatim>\<open>Response\<close>, as \<^verbatim>\<open>check_endpoint\<close> builds it: with status, body, duration, uri, content
  type and announcement, or with uri, announcement, exception and traceback.
\<close>

datatype Response =
    Response_ok int string real string "string option" announcement
  | Response_exc string announcement probe_exception string

definition check_endpoint :: "pylib \<Rightarrow> args \<Rightarrow> announcement \<Rightarrow> http_outcome \<Rightarrow> Response" where
  "check_endpoint lib a ann outcome =
     (let uri = urljoin lib (serviceUri ann) (args_endpoint a)
      in case outcome of
           Http_response st text dur ct \<Rightarrow> Response_ok st text dur uri ct ann
         | Http_raised e tb \<Rightarrow> Response_exc uri ann e tb)"

subsection \<open>Main\<close>

text \<open>
  \<^verbatim>\<open>get_announcements\<close>. The reply of the discovery server is the argument: \<open>Inl tb\<close>
  when the request or the decoding raised, otherwise the backend header (if any) and the
  decoded state.
\<close>

definition get_announcements ::
  "args \<Rightarrow> string + (string option \<times> announcement list) \<Rightarrow>
   string + (string option \<times> announcement list)" where
  "get_announcements a reply =
     (case reply of
        Inl tb \<Rightarrow> Inl tb
      | Inr (hdr, state) \<Rightarrow>
          Inr (if hdr = Some '''' then None else hdr,
               filter (\<lambda>ann. serviceType ann = args_service a) state))"

text \<open>
  Tokens go into a Python set, so they are compared with Python's \<^verbatim>\<open>==\<close> on hashable
  values (\<^verbatim>\<open>True == 1\<close>, \<^verbatim>\<open>False == 0\<close>); a list or a dict is unhashable.
\<close>

datatype pykey = KStr string | KNum int | KNone

fun hash_key :: "jvalue \<Rightarrow> py_exception + pykey" where
  "hash_key (JString s) = Inr (KStr s)"
| "hash_key (JNumber n) = Inr (KNum n)"
| "hash_key (JBool b) = Inr (KNum (if b then 1 else 0))"
| "hash_key JNull = Inr KNone"
| "hash_key (JArray xs) = Inl TypeError"
| "hash_key (JObject kvs) = Inl TypeError"

fun count_loop :: "announcement list \<Rightarrow> pykey set \<Rightarrow> int \<Rightarrow> py_exception + int" where
  "count_loop [] seen cnt = Inr cnt"
| "count_loop (ann # anns) seen cnt =
     (let md = (case metadata ann of None \<Rightarrow> Mapping.empty | Some m \<Rightarrow> m)
      in case Mapping.lookup md tokenkey of
           None \<Rightarrow> count_loop anns seen (cnt + 1)
         | Some token \<Rightarrow>
             (case hash_key token of
                Inl e \<Rightarrow> Inl e
              | Inr k \<Rightarrow>
                  if k \<notin> seen then count_loop anns (insert k seen) (cnt + 1)
                  else count_loop anns seen cnt))"

definition count_announcements :: "announcement list \<Rightarrow> py_exception + int" where
  "count_announcements announcements = count_loop announcements {} 0"

definition show_backend :: "string option \<Rightarrow> string" where
  "show_backend backend = (case backend of None \<Rightarrow> ''None'' | Some b \<Rightarrow> b)"

definition make_announcement_result ::
  "args \<Rightarrow> int \<Rightarrow> int \<Rightarrow> string option \<Rightarrow> py_exception + Result" where
  "make_announcement_result a c cnt backend =
     Result_init c ''announcements''
       (show_int cnt @ ''\<newline>crit./warn thresh.: '' @ show_int (critical_fewer a) @ ''/''
        @ show_int (warn_fewer a) @ ''\<newline>disco backend: '' @ show_backend backend)
       None"

text \<open>
  \<^verbatim>\<open>make_response_result\<close> reads and extends \<^verbatim>\<open>self.response_data_seen\<close>; the set is
  passed in and returned.
\<close>

definition make_response_result ::
  "pylib \<Rightarrow> string set \<Rightarrow> int \<Rightarrow> string \<Rightarrow> int \<Rightarrow> real \<Rightarrow> string option \<Rightarrow> string \<Rightarrow>
   announcement option \<Rightarrow> py_exception + (Result \<times> string set)" where
  "make_response_result lib seen c uri status_code dur contenttype text ann =
     (let msg = show_int status_code @ '' from endpoint''
      in if c \<noteq> 0 \<and> text \<in> seen
         then map_sum id (\<lambda>r. (r, seen))
                (Result_init c ''health'' ('' <duplicate '' @ [CHR 0x27] @ uri @ [CHR 0x27] @ ''>'') ann)
         else
           (let msg1 = (if c \<noteq> 0 then msg @ ''\<newline>'' @ parse lib contenttype text else msg);
                seen1 = (if c \<noteq> 0 then insert text seen else seen);
                msg2 = msg1 @ ''\<newline>duration '' @ fmt3 lib dur @ ''s''
            in map_sum id (\<lambda>r. (r, seen1)) (create_with_uri c ''health'' uri msg2 ann)))"

definition make_timeout_result ::
  "pylib \<Rightarrow> args \<Rightarrow> string \<Rightarrow> string \<Rightarrow> announcement option \<Rightarrow> py_exception + Result" where
  "make_timeout_result lib a uri type ann =
     create_with_uri 2 (type @ '' timeout'') uri (''thresh. '' @ fmt3 lib (timeout a)) ann"

definition handle_response ::
  "pylib \<Rightarrow> args \<Rightarrow> string set \<Rightarrow> Response \<Rightarrow> py_exception + (Result \<times> string set)" where
  "handle_response lib a seen response =
     (case response of
        Response_exc uri ann exc tb \<Rightarrow>
          map_sum id (\<lambda>r. (r, seen))
            (case exc of
               ConnectTimeout \<Rightarrow> make_timeout_result lib a uri ''connect'' (Some ann)
             | ReadTimeout \<Rightarrow> make_timeout_result lib a uri ''read'' (Some ann)
             | ConnectionError \<Rightarrow>
                 create_with_uri 2 ''health'' uri ''connection refused'' (Some ann)
             | OtherException \<Rightarrow>
                 create_with_uri 2 ''health'' uri (''unhandled exception\<newline>'' @ tb) (Some ann))
      | Response_ok st text dur uri ct ann \<Rightarrow>
          (let c = st div 100;
               result = (if c = 2 then 0 else if c = 4 then 1 else 2)
           in make_response_result lib seen result uri st dur ct text (Some ann)))"

text \<open>The loop over the pool's results, appending each to \<^verbatim>\<open>results\<close>.\<close>

fun handle_all ::
  "pylib \<Rightarrow> args \<Rightarrow> Response list \<Rightarrow> string set \<Rightarrow> Result list \<Rightarrow>
   py_exception + (Result list \<times> string set)" where
  "handle_all lib a [] seen outcomes = Inr (outcomes, seen)"
| "handle_all lib a (chk # checks) seen outcomes =
     (case handle_response lib a seen chk of
        Inl e \<Rightarrow> Inl e
      | Inr (r, seen1) \<Rightarrow> handle_all lib a checks seen1 (outcomes @ [r]))"

text \<open>
  \<^verbatim>\<open>results.sort(reverse=True, key=...)\<close>: Python's sort is stable, and with
  \<^verbatim>\<open>reverse=True\<close> elements with equal keys keep their original order, which is the
  reverse of a stable ascending sort of the reversed list. Keys are pairs of code and
  message, compared lexicographically.
\<close>

definition sort_results :: "Result list \<Rightarrow> Result list" where
  "sort_results rs = rev (sort_key (\<lambda>r. (code r, message_py r)) (rev rs))"

text \<open>
  The loop of the re-check over the sorted outcomes: it stops at the first result that is
  not critical, skips outcomes without announcement, and downgrades a result whose
  announcement is not in the fresh list. It returns the outcomes and the counter.
\<close>

fun downgrade_loop :: "announcement list \<Rightarrow> Result list \<Rightarrow> Result list \<times> int" where
  "downgrade_loop announcements [] = ([], 0)"
| "downgrade_loop announcements (res # rest) =
     (if code res \<noteq> 2 then (res # rest, 0)
      else
        (case announcement res of
           None \<Rightarrow> (case downgrade_loop announcements rest of (rest1, d) \<Rightarrow> (res # rest1, d))
         | Some ann \<Rightarrow>
             if ann \<notin> set announcements
             then (case downgrade_loop announcements rest of
                     (rest1, d) \<Rightarrow>
                       (res\<lparr>code := 1, message_py := message_py res @ ''\<newline>(downgraded)''\<rparr> # rest1,
                        d + 1))
             else (case downgrade_loop announcements rest of (rest1, d) \<Rightarrow> (res # rest1, d))))"

text \<open>The re-check (\<^verbatim>\<open>run\<close>, the body of \<^verbatim>\<open>if results[0].code == 2 and ...\<close>).\<close>

definition recheck ::
  "args \<Rightarrow> string + (string option \<times> announcement list) \<Rightarrow> Result list \<Rightarrow>
   py_exception + Result list" where
  "recheck a reply outcomes =
     (case get_announcements a reply of
        Inl tb \<Rightarrow>
          map_sum id (\<lambda>r. outcomes @ [r])
            (Result_init 1 ''announcements'' (''failed to re-check\<newline>'' @ tb) None)
      | Inr (backend, announcements) \<Rightarrow>
          (case downgrade_loop announcements outcomes of
             (outcomes1, downgraded) \<Rightarrow>
               if downgraded \<noteq> 0
               then map_sum id (\<lambda>r. sort_results (outcomes1 @ [r]))
                      (Result_init 1 ''results''
                         (''downgraded '' @ show_int downgraded @ '' critical result''
                          @ (if downgraded > 1 then ''s'' else '''')
                          @ ''\<newline>differing disco backend: '' @ show_backend backend)
                         None)
               else Inr outcomes1))"

text \<open>
  The code of the result for the announcement count (\<^verbatim>\<open>run\<close>, the chain
  \<^verbatim>\<open>if count < critical_fewer ... elif count < warn_fewer ... else\<close>).
\<close>

definition announcement_code :: "args \<Rightarrow> int \<Rightarrow> int" where
  "announcement_code a cnt =
     (if cnt < critical_fewer a then 2
      else if cnt < warn_fewer a then 1
      else 0)"

text \<open>
  The list \<^verbatim>\<open>results\<close> (here \<open>outcomes\<close>) before sorting: the result for the announcement count, then one result per pool
  result. The pool yields its outcomes in completion order (\<^verbatim>\<open>imap_unordered\<close>): \<open>sched\<close>
  lists the positions of the announcements in that order, \<open>net i\<close> is what
  \<^verbatim>\<open>requests.get\<close> did for the announcement at position \<open>i\<close>.
\<close>

definition collect ::
  "pylib \<Rightarrow> args \<Rightarrow> string option \<Rightarrow> announcement list \<Rightarrow> (nat \<Rightarrow> http_outcome) \<Rightarrow> nat list \<Rightarrow>
   py_exception + Result list" where
  "collect lib a backend announcements net sched =
     (case count_announcements announcements of
        Inl e \<Rightarrow> Inl e
      | Inr cnt \<Rightarrow>
          (case make_announcement_result a (announcement_code a cnt) cnt backend of
             Inl e \<Rightarrow> Inl e
           | Inr q \<Rightarrow>
               if do_healthcheck a
               then map_sum id fst
                      (handle_all lib a
                         (map (\<lambda>i. check_endpoint lib a (announcements ! i) (net i)) sched) {} [q])
               else Inr [q]))"

text \<open>Sorting, the re-check, and the return value \<^verbatim>\<open>results[0].code\<close>.\<close>

definition finish ::
  "args \<Rightarrow> string + (string option \<times> announcement list) \<Rightarrow> Result list \<Rightarrow>
   py_exception + (int \<times> Result list)" where
  "finish a reply2 outcomes =
     (case sort_results outcomes of
        [] \<Rightarrow> Inl IndexError
      | r0 # rs \<Rightarrow>
          (case (if code r0 = 2 \<and> do_healthcheck a then recheck a reply2 (r0 # rs)
                 else Inr (r0 # rs)) of
             Inl e \<Rightarrow> Inl e
           | Inr [] \<Rightarrow> Inl IndexError
           | Inr (f0 # fs) \<Rightarrow> Inr (code f0, f0 # fs)))"

text \<open>
  \<^verbatim>\<open>Main.run\<close>: the exit code and the outcomes whose messages are printed. \<open>reply1\<close> and
  \<open>reply2\<close> are the discovery server's replies to the first fetch and to the re-check.
\<close>

definition Main_run ::
  "pylib \<Rightarrow> args \<Rightarrow> string + (string option \<times> announcement list) \<Rightarrow> (nat \<Rightarrow> http_outcome) \<Rightarrow>
   nat list \<Rightarrow> string + (string option \<times> announcement list) \<Rightarrow>
   py_exception + (int \<times> Result list)" where
  "Main_run lib a reply1 net sched reply2 =
     (case get_announcements a reply1 of
        Inl tb \<Rightarrow> Inr (3, [])
      | Inr (backend, announcements) \<Rightarrow>
          (case collect lib a backend announcements net sched of
             Inl e \<Rightarrow> Inl e
           | Inr outcomes \<Rightarrow> finish a reply2 outcomes))"

text \<open>The script's exit code: an exception that escapes \<^verbatim>\<open>run\<close> exits with 3.\<close>

definition script_exit :: "py_exception + (int \<times> Result list) \<Rightarrow> int" where
  "script_exit r = (case r of Inl e \<Rightarrow> 3 | Inr (c, rs) \<Rightarrow> c)"

section \<open>Notions used in the statements\<close>

text \<open>
  The dedup token of an announcement as the discovery data has it: the metadata member
  under the fixed key, of whatever JSON type, or none.
\<close>

definition token_of :: "announcement \<Rightarrow> jvalue option" where
  "token_of ann =
     (case metadata ann of None \<Rightarrow> None | Some m \<Rightarrow> Mapping.lookup m tokenkey)"

text \<open>The distinct string tokens among a list of announcements.\<close>

definition string_tokens :: "announcement list \<Rightarrow> string set" where
  "string_tokens anns = {s. \<exists>a\<in>set anns. token_of a = Some (JString s)}"

text \<open>
  The severity a Nagios exit code stands for; it relates the Python script's result codes
  (0, 1, 2, and 3 for the exit on failure) to the Go program's statuses.
\<close>

definition status_of_code :: "int \<Rightarrow> Status" where
  "status_of_code c =
     (if c = 0 then StatusOK
      else if c = 1 then StatusWarn
      else if c = 2 then StatusCrit
      else StatusUnknown)"

text \<open>
  The re-check as the specification words it: a critical result whose announcement is
  missing from the fresh list is stale, and a stale result is downgraded to a warning
  with an annotation appended to its message.
\<close>

definition stale :: "announcement list \<Rightarrow> Result \<Rightarrow> bool" where
  "stale fresh r =
     (code r = 2 \<and> (case announcement r of None \<Rightarrow> False | Some ann \<Rightarrow> ann \<notin> set fresh))"

definition downgrade :: "announcement list \<Rightarrow> Result \<Rightarrow> Result" where
  "downgrade fresh r =
     (if stale fresh r
      then r\<lparr>code := 1, message_py := message_py r @ ''\<newline>(downgraded)''\<rparr>
      else r)"

text \<open>
  The code and the announcement of the result that \<^verbatim>\<open>handle_response\<close> builds from a
  pool result, read off its branches.
\<close>

fun response_code :: "Response \<Rightarrow> int" where
  "response_code (Response_ok st bd dur uri ct ann) =
     (if 200 \<le> st \<and> st < 300 then 0 else if 400 \<le> st \<and> st < 500 then 1 else 2)"
| "response_code (Response_exc uri ann exc tb) = 2"

fun response_announcement :: "Response \<Rightarrow> announcement" where
  "response_announcement (Response_ok st bd dur uri ct ann) = ann"
| "response_announcement (Response_exc uri ann exc tb) = ann"

section \<open>Sample inputs\<close>

text \<open>
  A small fleet used to instantiate the theorems: two instances of service \<open>foo\<close> and
  one of \<open>bar\<close>; thresholds crit = 1 and warn = 2; the first probe answers 200, the
  second fails (Go) or answers 503 (Python).
\<close>

definition ex_ann :: "string \<Rightarrow> string \<Rightarrow> jvalue option \<Rightarrow> announcement" where
  "ex_ann i svc tok =
     \<lparr>announcementId = i, serviceType = svc, serviceUri = ''http://'' @ i @ ''/'',
      environment = ''prod'',
      metadata =
        (case tok of
           None \<Rightarrow> None
         | Some v \<Rightarrow> Some (Mapping.update tokenkey v Mapping.empty))\<rparr>"

definition ex_state :: "announcement list" where
  "ex_state = [ex_ann ''a1'' ''foo'' None, ex_ann ''b1'' ''bar'' None, ex_ann ''a2'' ''foo'' None]"

definition ex_check :: check where
  "ex_check =
     \<lparr>discoveryState = ex_state, service = ''foo'', endpoint = ''health'',
      skipHealthcheck = False, warn = 2, crit = 1, headers = []\<rparr>"

definition ex_net :: "nat \<Rightarrow> string + response" where
  "ex_net i =
     (if i = 0
      then Inr \<lparr>resp_endpoint = ''http://a1/health'', contentType = ''text/plain'',
                body = ''ok'', statusCode = 200, duration = 12000000\<rparr>
      else Inl ''connection refused'')"

definition ex_lib :: pylib where
  "ex_lib = \<lparr>fmt3 = (\<lambda>x. ''0.012''), urljoin = (\<lambda>base rel. base @ rel), parse = (\<lambda>ct t. t)\<rparr>"

definition ex_args :: args where
  "ex_args =
     \<lparr>args_service = ''foo'', args_endpoint = ''health'', do_healthcheck = True,
      timeout = 5, critical_fewer = 1, warn_fewer = 2\<rparr>"

definition ex_http :: "nat \<Rightarrow> http_outcome" where
  "ex_http i =
     (if i = 0 then Http_response 200 ''ok'' (12 / 1000) (Some ''text/plain'')
      else Http_response 503 ''down'' (12 / 1000) (Some ''text/plain''))"

text \<open>
  The sample fleet again, for the Go core with the second probe answering 503, and for
  the Python script with the second probe refused.
\<close>

definition ex_net_503 :: "nat \<Rightarrow> string + response" where
  "ex_net_503 i =
     (if i = 0
      then Inr \<lparr>resp_endpoint = ''http://a1/health'', contentType = ''text/plain'',
                body = ''ok'', statusCode = 200, duration = 12000000\<rparr>
      else Inr \<lparr>resp_endpoint = ''http://a2/health'', contentType = ''text/plain'',
                body = ''down'', statusCode = 503, duration = 12000000\<rparr>)"

definition ex_http_refused :: "nat \<Rightarrow> http_outcome" where
  "ex_http_refused i =
     (if i = 0 then Http_response 200 ''ok'' (12 / 1000) (Some ''text/plain'')
      else Http_raised ConnectionError ''trace'')"

chapter \<open>Properties\<close>

section \<open>The accumulator\<close>

lemma statusToOrd_inj: "statusToOrd a = statusToOrd b \<Longrightarrow> a = b"
  by (cases a; cases b) simp_all

lemma statusToOrd_worseOf: "statusToOrd (worseOf a b) = max (statusToOrd a) (statusToOrd b)"
  by (simp add: worseOf_def)

lemma worseOf_commute: "worseOf a b = worseOf b a"
  by (rule statusToOrd_inj) (simp add: statusToOrd_worseOf max.commute)

lemma worseOf_assoc: "worseOf (worseOf a b) c = worseOf a (worseOf b c)"
  by (rule statusToOrd_inj) (simp add: statusToOrd_worseOf max.assoc)

lemma worstStatus_add: "worstStatus (add acc r) = worseOf (worstStatus acc) (status r)"
  by (simp add: add_def)

lemma results_add: "results (add acc r) = results acc @ [r]"
  by (simp add: add_def)

lemma results_foldl_add: "results (foldl add acc rs) = results acc @ rs"
  by (induction rs arbitrary: acc) (simp_all add: results_add)

lemma Max_insert_max:
  "finite S \<Longrightarrow> Max (insert (max a b) S) = Max (insert (a::int) (insert b S))"
  by (cases "S = {}") (simp_all add: max.assoc)

text \<open>The rank of the accumulated status is the greatest rank seen so far.\<close>

lemma worstStatus_foldl_add:
  "statusToOrd (worstStatus (foldl add acc rs)) =
     Max (insert (statusToOrd (worstStatus acc)) (statusToOrd ` status ` set rs))"
proof (induction rs arbitrary: acc)
  case Nil
  show ?case by simp
next
  case (Cons r rs)
  have "statusToOrd (worstStatus (foldl add (add acc r) rs)) =
        Max (insert (max (statusToOrd (worstStatus acc)) (statusToOrd (status r)))
                    (statusToOrd ` status ` set rs))"
    using Cons.IH [of "add acc r"] by (simp add: worstStatus_add statusToOrd_worseOf)
  also have "\<dots> = Max (insert (statusToOrd (worstStatus acc))
                       (insert (statusToOrd (status r)) (statusToOrd ` status ` set rs)))"
    by (rule Max_insert_max) simp
  finally show ?case by simp
qed

text \<open>
  Claim C2. \<^verbatim>\<open>statusToOrd\<close> ranks the four severities OK < UNKNOWN < WARN < CRIT,
  \<^verbatim>\<open>worseOf\<close> returns the argument of greater rank and is commutative and associative,
  \<^verbatim>\<open>add\<close> folds it into the accumulator, and feeding the same results to the
  accumulator in any two orders leaves the same worst status.
\<close>

theorem aggregation_order_independent:
  "statusToOrd StatusOK < statusToOrd StatusUnknown
   \<and> statusToOrd StatusUnknown < statusToOrd StatusWarn
   \<and> statusToOrd StatusWarn < statusToOrd StatusCrit
   \<and> statusToOrd (worseOf a b) = max (statusToOrd a) (statusToOrd b)
   \<and> worseOf a b = worseOf b a
   \<and> worseOf (worseOf a b) c = worseOf a (worseOf b c)
   \<and> worstStatus (add acc r) = worseOf (worstStatus acc) (status r)
   \<and> (mset rs = mset rs' \<longrightarrow>
        worstStatus (foldl add acc rs) = worstStatus (foldl add acc rs'))"
proof -
  have "worstStatus (foldl add acc rs) = worstStatus (foldl add acc rs')" if "mset rs = mset rs'"
  proof (rule statusToOrd_inj)
    from that have "set rs = set rs'" by (rule mset_eq_setD)
    then show "statusToOrd (worstStatus (foldl add acc rs)) =
               statusToOrd (worstStatus (foldl add acc rs'))"
      by (simp add: worstStatus_foldl_add)
  qed
  then show ?thesis
    using statusToOrd_worseOf [of a b] worseOf_commute [of a b] worseOf_assoc [of a b c]
      worstStatus_add [of acc r]
    by simp
qed

theorem aggregation_order_independent_witness:
  "mset [\<lparr>status = StatusWarn, message = ''w'', perf = []\<rparr>,
         \<lparr>status = StatusCrit, message = ''c'', perf = []\<rparr>,
         \<lparr>status = StatusOK, message = ''o'', perf = []\<rparr>]
   = mset [\<lparr>status = StatusOK, message = ''o'', perf = []\<rparr>,
           \<lparr>status = StatusCrit, message = ''c'', perf = []\<rparr>,
           \<lparr>status = StatusWarn, message = ''w'', perf = []\<rparr>]
   \<and> worstStatus (foldl add newAccumulator
         [\<lparr>status = StatusWarn, message = ''w'', perf = []\<rparr>,
          \<lparr>status = StatusCrit, message = ''c'', perf = []\<rparr>,
          \<lparr>status = StatusOK, message = ''o'', perf = []\<rparr>])
     = worstStatus (foldl add newAccumulator
         [\<lparr>status = StatusOK, message = ''o'', perf = []\<rparr>,
          \<lparr>status = StatusCrit, message = ''c'', perf = []\<rparr>,
          \<lparr>status = StatusWarn, message = ''w'', perf = []\<rparr>])
   \<and> worseOf StatusUnknown StatusWarn = StatusWarn
   \<and> worseOf StatusWarn StatusUnknown = StatusWarn"
  using aggregation_order_independent
    [of StatusUnknown StatusWarn StatusOK newAccumulator
        "\<lparr>status = StatusWarn, message = ''w'', perf = []\<rparr>"
        "[\<lparr>status = StatusWarn, message = ''w'', perf = []\<rparr>,
          \<lparr>status = StatusCrit, message = ''c'', perf = []\<rparr>,
          \<lparr>status = StatusOK, message = ''o'', perf = []\<rparr>]"
        "[\<lparr>status = StatusOK, message = ''o'', perf = []\<rparr>,
          \<lparr>status = StatusCrit, message = ''c'', perf = []\<rparr>,
          \<lparr>status = StatusWarn, message = ''w'', perf = []\<rparr>]"]
  by (simp add: worseOf_def)

section \<open>Quota: thresholds\<close>

text \<open>
  Claim C5. The quota result of the Go core is CRIT when \<open>crit > 0\<close> and the count is
  below \<open>crit\<close>, otherwise WARN when \<open>warn > 0\<close> and the count is below \<open>warn\<close>,
  otherwise OK, and \<^verbatim>\<open>checkQuota\<close> adds exactly that result for the deduplicated count.
  The Python script compares without the \<open>> 0\<close> guards; for a count that is not
  negative this selects the same level (code 2, 1 or 0).
\<close>

theorem quota_severity_thresholds:
  "status (quotaResult c cnt) =
     (if crit c > 0 \<and> cnt < crit c then StatusCrit
      else if warn c > 0 \<and> cnt < warn c then StatusWarn
      else StatusOK)
   \<and> checkQuota c anns acc = add acc (quotaResult c (countQuota anns Map.empty 0))
   \<and> (0 \<le> cnt \<longrightarrow>
        announcement_code a cnt =
          (if critical_fewer a > 0 \<and> cnt < critical_fewer a then 2
           else if warn_fewer a > 0 \<and> cnt < warn_fewer a then 1
           else 0))"
  by (simp add: quotaResult_def checkQuota_def announcement_code_def)

theorem quota_severity_thresholds_witness:
  "status (quotaResult (ex_check\<lparr>crit := 3, warn := 5\<rparr>) 2) = StatusCrit
   \<and> status (quotaResult (ex_check\<lparr>crit := 3, warn := 5\<rparr>) 4) = StatusWarn
   \<and> status (quotaResult (ex_check\<lparr>crit := 3, warn := 5\<rparr>) 5) = StatusOK
   \<and> status (quotaResult (ex_check\<lparr>crit := 0, warn := 0\<rparr>) 0) = StatusOK
   \<and> (0::int) \<le> 2
   \<and> announcement_code (ex_args\<lparr>critical_fewer := 3, warn_fewer := 5\<rparr>) 2 = 2
   \<and> announcement_code (ex_args\<lparr>critical_fewer := 3, warn_fewer := 5\<rparr>) 4 = 1
   \<and> announcement_code (ex_args\<lparr>critical_fewer := 3, warn_fewer := 5\<rparr>) 5 = 0"
  using
    quota_severity_thresholds [of "ex_check\<lparr>crit := 3, warn := 5\<rparr>" 2 "[]" newAccumulator
      "ex_args\<lparr>critical_fewer := 3, warn_fewer := 5\<rparr>"]
    quota_severity_thresholds [of "ex_check\<lparr>crit := 3, warn := 5\<rparr>" 4 "[]" newAccumulator
      "ex_args\<lparr>critical_fewer := 3, warn_fewer := 5\<rparr>"]
    quota_severity_thresholds [of "ex_check\<lparr>crit := 3, warn := 5\<rparr>" 5 "[]" newAccumulator
      "ex_args\<lparr>critical_fewer := 3, warn_fewer := 5\<rparr>"]
    quota_severity_thresholds [of "ex_check\<lparr>crit := 0, warn := 0\<rparr>" 0 "[]" newAccumulator
      "ex_args"]
  by (simp add: ex_check_def ex_args_def)

section \<open>Probe outcomes\<close>

lemma statusFor_family:
  "statusFor st =
     (if 200 \<le> st \<and> st < 300 then StatusOK
      else if 400 \<le> st \<and> st < 500 then StatusWarn
      else StatusCrit)"
proof (cases "0 \<le> st")
  case True
  then have "st sdiv 100 = st div 100"
    by (simp add: signed_divide_int_def sgn_if)
  moreover have "st div 100 = 2 \<longleftrightarrow> 200 \<le> st \<and> st < 300" by presburger
  moreover have "st div 100 = 4 \<longleftrightarrow> 400 \<le> st \<and> st < 500" by presburger
  ultimately show ?thesis by (simp add: statusFor_def)
next
  case False
  then have "st sdiv 100 = - ((- st) div 100)"
    by (simp add: signed_divide_int_def sgn_if)
  moreover from False have "0 \<le> (- st) div 100" by simp
  ultimately have "st sdiv 100 \<le> 0" by simp
  with False show ?thesis by (simp add: statusFor_def)
qed

text \<open>\<^verbatim>\<open>Result.__init__\<close> succeeds exactly for the codes 0, 1 and 2.\<close>

lemma Result_init_codes:
  "c = 0 \<or> c = 1 \<or> c = 2 \<Longrightarrow>
   \<exists>state. Result_init c topic m ann =
     Inr \<lparr>code = c, message_py = topic @ '' '' @ state @ '': '' @ m, announcement = ann\<rparr>"
  by (auto simp: Result_init_def codemap_def)

lemma Result_init_Inr:
  "Result_init c topic m ann = Inr r \<Longrightarrow>
   code r = c \<and> announcement r = ann \<and> (c = 0 \<or> c = 1 \<or> c = 2)"
  by (auto simp: Result_init_def codemap_def split: option.splits if_splits)

lemma create_with_uri_codes:
  "c = 0 \<or> c = 1 \<or> c = 2 \<Longrightarrow>
   \<exists>r. create_with_uri c topic uri m ann = Inr r \<and> code r = c \<and> announcement r = ann"
  using Result_init_codes [of c topic "m @ ''\<newline>check URI '' @ uri" ann]
  by (auto simp: create_with_uri_def)

lemma make_response_result_code:
  assumes c: "c = 0 \<or> c = 1 \<or> c = 2"
  shows "\<exists>r seen1. make_response_result lib seen c uri st dur ct bd ann = Inr (r, seen1)
      \<and> code r = c \<and> announcement r = ann"
proof (cases "c \<noteq> 0 \<and> bd \<in> seen")
  case True
  from Result_init_codes [OF c] obtain state where
    "Result_init c ''health'' ('' <duplicate '' @ [CHR 0x27] @ uri @ [CHR 0x27] @ ''>'') ann =
      Inr \<lparr>code = c,
           message_py = ''health'' @ '' '' @ state @ '': ''
             @ ('' <duplicate '' @ [CHR 0x27] @ uri @ [CHR 0x27] @ ''>''),
           announcement = ann\<rparr>"
    by blast
  with True show ?thesis by (simp add: make_response_result_def)
next
  case False
  define msg2 where
    "msg2 = (if c \<noteq> 0 then (show_int st @ '' from endpoint'') @ ''\<newline>'' @ parse lib ct bd
             else show_int st @ '' from endpoint'')
            @ ''\<newline>duration '' @ fmt3 lib dur @ ''s''"
  from create_with_uri_codes [OF c, of "''health''" uri msg2 ann] obtain r where
    "create_with_uri c ''health'' uri msg2 ann = Inr r" "code r = c" "announcement r = ann"
    by blast
  with False show ?thesis
    unfolding make_response_result_def msg2_def Let_def by auto
qed

lemma handle_response_ok:
  "\<exists>r seen1. handle_response lib a seen (Response_ok st bd dur uri ct ann) = Inr (r, seen1)
     \<and> code r = (if 200 \<le> st \<and> st < 300 then 0 else if 400 \<le> st \<and> st < 500 then 1 else 2)
     \<and> announcement r = Some ann"
proof -
  have f2: "st div 100 = 2 \<longleftrightarrow> 200 \<le> st \<and> st < 300" by presburger
  have f4: "st div 100 = 4 \<longleftrightarrow> 400 \<le> st \<and> st < 500" by presburger
  define c :: int where "c = (if st div 100 = 2 then 0 else if st div 100 = 4 then 1 else 2)"
  have "c = 0 \<or> c = 1 \<or> c = 2" by (simp add: c_def)
  from make_response_result_code [OF this, of lib seen uri st dur ct bd "Some ann"]
  obtain r seen1 where
    "make_response_result lib seen c uri st dur ct bd (Some ann) = Inr (r, seen1)"
    "code r = c" "announcement r = Some ann" by blast
  then show ?thesis
    unfolding handle_response_def c_def Let_def using f2 f4 by auto
qed

lemma handle_response_exc:
  "\<exists>r. handle_response lib a seen (Response_exc uri ann exc tb) = Inr (r, seen)
     \<and> code r = 2 \<and> announcement r = Some ann"
proof -
  have c: "(2::int) = 0 \<or> (2::int) = 1 \<or> (2::int) = 2" by simp
  show ?thesis
  proof (cases exc)
    case ConnectTimeout
    with create_with_uri_codes
      [OF c, of "''connect'' @ '' timeout''" uri "''thresh. '' @ fmt3 lib (timeout a)" "Some ann"]
    show ?thesis by (auto simp: handle_response_def make_timeout_result_def)
  next
    case ReadTimeout
    with create_with_uri_codes
      [OF c, of "''read'' @ '' timeout''" uri "''thresh. '' @ fmt3 lib (timeout a)" "Some ann"]
    show ?thesis by (auto simp: handle_response_def make_timeout_result_def)
  next
    case ConnectionError
    with create_with_uri_codes [OF c, of "''health''" uri "''connection refused''" "Some ann"]
    show ?thesis by (auto simp: handle_response_def)
  next
    case OtherException
    with create_with_uri_codes
      [OF c, of "''health''" uri "''unhandled exception\<newline>'' @ tb" "Some ann"]
    show ?thesis by (auto simp: handle_response_def)
  qed
qed

lemma checkAnnouncement_probeResult:
  "checkAnnouncement ann fetched acc = add acc (probeResult ann fetched)"
  by (simp add: checkAnnouncement_def probeResult_def split: sum.splits)

text \<open>
  Claim C6. For a probe that got a response, the severity is a function of the status
  code's hundreds: 2xx is OK, 4xx is WARN, anything else (3xx, 5xx, codes below 200,
  codes from 600, negative codes) is CRIT. This holds for \<^verbatim>\<open>statusFor\<close>, whose value
  is the status of the result \<^verbatim>\<open>checkAnnouncement\<close> adds, and for the code of the result
  the Python \<^verbatim>\<open>handle_response\<close> returns (0, 1, 2), whatever the body, the content type
  and the set of bodies seen before.
\<close>

theorem status_code_family:
  "statusFor st =
     (if 200 \<le> st \<and> st < 300 then StatusOK
      else if 400 \<le> st \<and> st < 500 then StatusWarn
      else StatusCrit)
   \<and> checkAnnouncement ann (Inr resp) acc = add acc (probeResult ann (Inr resp))
   \<and> status (probeResult ann (Inr resp)) = statusFor (statusCode resp)
   \<and> (\<exists>r seen1.
        handle_response lib a seen (Response_ok st bd dur uri ct ann) = Inr (r, seen1)
        \<and> code r = (if 200 \<le> st \<and> st < 300 then 0 else if 400 \<le> st \<and> st < 500 then 1 else 2))"
  using statusFor_family [of st] handle_response_ok [of lib a seen st bd dur uri ct ann]
  by (auto simp: checkAnnouncement_probeResult probeResult_def)

theorem status_code_family_witness:
  "statusFor 200 = StatusOK \<and> statusFor 404 = StatusWarn
   \<and> statusFor 500 = StatusCrit \<and> statusFor 301 = StatusCrit"
  using status_code_family [of 200] status_code_family [of 404]
    status_code_family [of 500] status_code_family [of 301]
  by simp

text \<open>
  Claim C3 (as amended). In the Go core, a probe whose fetch returns an error adds one
  result of severity WARN whose message names the service URI and the error. In the
  Python script, a probe that raised (connect timeout, read timeout, connection error,
  or any other exception) yields a result of code 2, critical, for that announcement.
\<close>

theorem transport_failure_severity:
  "checkAnnouncement ann (Inl err) acc =
     add acc \<lparr>status = StatusWarn,
              message = ''failed to fetch announced endpoint '' @ serviceUri ann @ '': '' @ err,
              perf = []\<rparr>
   \<and> (\<exists>r. handle_response lib a seen (Response_exc uri ann exc tb) = Inr (r, seen)
        \<and> code r = 2 \<and> announcement r = Some ann)"
  using handle_response_exc [of lib a seen uri ann exc tb]
  by (simp add: checkAnnouncement_def)

theorem transport_failure_severity_witness:
  "status (last (results (checkAnnouncement (ex_ann ''a2'' ''foo'' None)
      (Inl ''connection refused'') newAccumulator))) = StatusWarn"
  using transport_failure_severity [of "ex_ann ''a2'' ''foo'' None" "''connection refused''"
    newAccumulator ex_lib ex_args "{}" "''http://a2/health''" ConnectionError "''''"]
  by (simp add: add_def newAccumulator_def)

text \<open>
  The claim as stated fails on the Python script: a refused connection gives a critical
  result.
\<close>

theorem transport_failure_python_critical:
  "handle_response ex_lib ex_args {}
     (Response_exc ''http://a2/health'' (ex_ann ''a2'' ''foo'' None) ConnectionError ''trace'')
   = Inr (\<lparr>code = 2,
           message_py = ''health critical: connection refused\<newline>check URI http://a2/health'',
           announcement = Some (ex_ann ''a2'' ''foo'' None)\<rparr>, {})"
  by (simp add: handle_response_def create_with_uri_def Result_init_def codemap_def)

section \<open>Quota: counting\<close>

text \<open>
  The loop's result in closed form, for any starting map and counter: every announcement
  without a (non-empty, string) token counts, and so does every token not yet seen.
\<close>

lemma countQuota_closed:
  "countQuota anns seen cnt =
     cnt + int (length (filter (\<lambda>a. serverToken a = '''') anns))
         + int (card ((serverToken ` set anns - {''''}) - {t. seen t = Some True}))"
proof (induction anns arbitrary: seen cnt)
  case Nil
  show ?case by simp
next
  case (Cons ann anns)
  let ?T = "serverToken ` set anns - {''''}"
  let ?S = "{t. seen t = Some True}"
  let ?tok = "serverToken ann"
  have fin: "finite (?T - X)" for X by simp
  have seen_upd: "{t. (seen(?tok \<mapsto> True)) t = Some True} = insert ?tok ?S" by auto
  have IH_upd: "countQuota anns (seen(?tok \<mapsto> True)) (cnt + 1) =
      cnt + 1 + int (length (filter (\<lambda>a. serverToken a = '''') anns))
        + int (card (?T - insert ?tok ?S))"
    using Cons.IH [of "seen(?tok \<mapsto> True)" "cnt + 1"] unfolding seen_upd .
  show ?case
  proof (cases "?tok = ''''")
    case True
    have step: "countQuota (ann # anns) seen cnt = countQuota anns (seen(?tok \<mapsto> True)) (cnt + 1)"
      using True by simp
    have "(?T - insert ?tok ?S) = ?T - ?S" using True by auto
    moreover have "serverToken ` set (ann # anns) - {''''} = ?T" using True by auto
    ultimately show ?thesis
      unfolding step IH_upd using True by simp
  next
    case False
    show ?thesis
    proof (cases "seen ?tok = Some True")
      case True
      have step: "countQuota (ann # anns) seen cnt = countQuota anns seen cnt"
        using True False by simp
      have "(serverToken ` set (ann # anns) - {''''}) - ?S = ?T - ?S" using True False by auto
      then show ?thesis
        unfolding step Cons.IH [of seen cnt] using False by simp
    next
      case notseen: False
      then have ok: "(case seen ?tok of Some b \<Rightarrow> b | None \<Rightarrow> False) = False"
        by (cases "seen ?tok") auto
      have step: "countQuota (ann # anns) seen cnt = countQuota anns (seen(?tok \<mapsto> True)) (cnt + 1)"
        using False ok by simp
      have "(serverToken ` set (ann # anns) - {''''}) - ?S = insert ?tok (?T - insert ?tok ?S)"
        using False notseen by auto
      moreover have "?tok \<notin> ?T - insert ?tok ?S" by simp
      ultimately have "card ((serverToken ` set (ann # anns) - {''''}) - ?S) =
                       Suc (card (?T - insert ?tok ?S))"
        using card_insert_disjoint [OF fin, of ?tok "insert ?tok ?S"] by simp
      then show ?thesis
        unfolding step IH_upd using False by simp
    qed
  qed
qed

lemma md_lookup:
  "Mapping.lookup (case metadata ann of None \<Rightarrow> Mapping.empty | Some m \<Rightarrow> m) tokenkey
   = token_of ann"
  by (simp add: token_of_def Mapping.lookup_empty split: option.splits)

lemma string_tokens_Cons_None:
  "token_of a = None \<Longrightarrow> string_tokens (a # anns) = string_tokens anns"
  by (auto simp: string_tokens_def)

lemma string_tokens_Cons_Some:
  "token_of a = Some (JString s) \<Longrightarrow> string_tokens (a # anns) = insert s (string_tokens anns)"
  by (auto simp: string_tokens_def)

lemma finite_string_tokens: "finite (string_tokens anns)"
proof -
  have "string_tokens anns \<subseteq>
        (\<lambda>a. case token_of a of Some (JString s) \<Rightarrow> s | _ \<Rightarrow> '''') ` set anns"
    by (force simp: string_tokens_def)
  then show ?thesis by (rule finite_subset) simp
qed

lemma count_loop_closed:
  assumes "\<forall>a\<in>set anns. token_of a = None \<or> (\<exists>s. token_of a = Some (JString s))"
  shows "count_loop anns seen cnt =
     Inr (cnt + int (length (filter (\<lambda>a. token_of a = None) anns))
              + int (card (string_tokens anns - {s. KStr s \<in> seen})))"
  using assms
proof (induction anns arbitrary: seen cnt)
  case Nil
  show ?case by (simp add: string_tokens_def)
next
  case (Cons ann anns)
  then have rest: "\<forall>a\<in>set anns. token_of a = None \<or> (\<exists>s. token_of a = Some (JString s))"
    by simp
  from Cons.prems have "token_of ann = None \<or> (\<exists>s. token_of ann = Some (JString s))" by simp
  then show ?case
  proof
    assume none: "token_of ann = None"
    then show ?thesis
      using Cons.IH [OF rest, of seen "cnt + 1"]
      by (simp add: md_lookup Let_def string_tokens_Cons_None)
  next
    assume "\<exists>s. token_of ann = Some (JString s)"
    then obtain s where s: "token_of ann = Some (JString s)" ..
    let ?T = "string_tokens anns"
    let ?S = "{s. KStr s \<in> seen}"
    show ?thesis
    proof (cases "KStr s \<in> seen")
      case True
      then have "insert s ?T - ?S = ?T - ?S" by auto
      with True s show ?thesis
        using Cons.IH [OF rest, of seen cnt]
        by (simp add: md_lookup Let_def string_tokens_Cons_Some)
    next
      case False
      have upd: "{t. KStr t \<in> insert (KStr s) seen} = insert s ?S" by auto
      have step: "count_loop (ann # anns) seen cnt =
                  count_loop anns (insert (KStr s) seen) (cnt + 1)"
        using False s by (simp add: md_lookup Let_def)
      have IH_upd: "count_loop anns (insert (KStr s) seen) (cnt + 1) =
         Inr (cnt + 1 + int (length (filter (\<lambda>a. token_of a = None) anns))
                + int (card (?T - insert s ?S)))"
        using Cons.IH [OF rest, of "insert (KStr s) seen" "cnt + 1"] unfolding upd .
      have "insert s ?T - ?S = insert s (?T - insert s ?S)" using False by auto
      moreover have "s \<notin> ?T - insert s ?S" by simp
      moreover have "finite (?T - insert s ?S)" by (simp add: finite_string_tokens)
      ultimately have "card (insert s ?T - ?S) = Suc (card (?T - insert s ?S))"
        by simp
      then show ?thesis
        unfolding step IH_upd using s by (simp add: string_tokens_Cons_Some)
    qed
  qed
qed

text \<open>
  Claim C4. The quota count is the number of announcements without a dedup token plus
  the number of distinct tokens among the others. In the Go core the token of an
  announcement is what \<^verbatim>\<open>serverToken\<close> returns, and the empty string means that there
  is none. In the Python script the token is the metadata member under the token key and
  an announcement has none when the key is missing; the statement is for announcements
  whose token, when present, is a string.
\<close>

theorem quota_count_dedup:
  "countQuota anns Map.empty 0 =
     int (length (filter (\<lambda>a. serverToken a = '''') anns))
     + int (card (serverToken ` set anns - {''''}))
   \<and> ((\<forall>a\<in>set anns. token_of a = None \<or> (\<exists>s. token_of a = Some (JString s))) \<longrightarrow>
        count_announcements anns =
          Inr (int (length (filter (\<lambda>a. token_of a = None) anns))
               + int (card (string_tokens anns))))"
proof -
  have "{t. Map.empty t = Some True} = ({} :: string set)" by simp
  then have go: "countQuota anns Map.empty 0 =
     int (length (filter (\<lambda>a. serverToken a = '''') anns))
     + int (card (serverToken ` set anns - {''''}))"
    using countQuota_closed [of anns Map.empty 0] by simp
  have "count_announcements anns =
          Inr (int (length (filter (\<lambda>a. token_of a = None) anns))
               + int (card (string_tokens anns)))"
    if "\<forall>a\<in>set anns. token_of a = None \<or> (\<exists>s. token_of a = Some (JString s))"
    using count_loop_closed [OF that, of "{}" 0] by (simp add: count_announcements_def)
  with go show ?thesis by blast
qed

text \<open>The example of the specification: tokens "a", "a" and none give 2.\<close>

theorem quota_count_dedup_witness:
  "token_of (ex_ann ''a1'' ''foo'' (Some (JString ''a''))) = Some (JString ''a'')
   \<and> token_of (ex_ann ''a2'' ''foo'' (Some (JString ''a''))) = Some (JString ''a'')
   \<and> token_of (ex_ann ''a3'' ''foo'' None) = None
   \<and> countQuota [ex_ann ''a1'' ''foo'' (Some (JString ''a'')),
                 ex_ann ''a2'' ''foo'' (Some (JString ''a'')),
                 ex_ann ''a3'' ''foo'' None] Map.empty 0 = 2
   \<and> count_announcements [ex_ann ''a1'' ''foo'' (Some (JString ''a'')),
                           ex_ann ''a2'' ''foo'' (Some (JString ''a'')),
                           ex_ann ''a3'' ''foo'' None] = Inr 2"
proof -
  let ?anns = "[ex_ann ''a1'' ''foo'' (Some (JString ''a'')),
                ex_ann ''a2'' ''foo'' (Some (JString ''a'')),
                ex_ann ''a3'' ''foo'' None]"
  have tok: "token_of (ex_ann i svc (Some v)) = Some v" "token_of (ex_ann i svc None) = None"
    for i svc v
    by (simp_all add: token_of_def ex_ann_def)
  have srv: "serverToken (ex_ann i svc (Some (JString s))) = s"
    "serverToken (ex_ann i svc None) = ''''" for i svc s
    by (simp_all add: serverToken_def ex_ann_def)
  have h: "\<forall>a\<in>set ?anns. token_of a = None \<or> (\<exists>s. token_of a = Some (JString s))"
    by (simp add: tok)
  have st: "string_tokens ?anns = {''a''}"
    by (auto simp: string_tokens_def tok)
  from quota_count_dedup [of ?anns] h st show ?thesis
    by (simp add: tok srv)
qed

text \<open>
  Claim C10. In the Go core, an announcement whose metadata holds the token key with a
  value that is not a string has the empty \<^verbatim>\<open>serverToken\<close>, and wherever it stands in
  the list it adds exactly one to the count: the count with it is the count without it
  plus one.
\<close>

theorem non_string_token_counts_alone:
  assumes "metadata a = Some m"
    and "Mapping.lookup m tokenkey = Some v"
    and "\<forall>s. v \<noteq> JString s"
  shows "serverToken a = ''''
         \<and> countQuota (xs @ a # ys) Map.empty 0 = countQuota (xs @ ys) Map.empty 0 + 1"
proof -
  from assms have tok: "serverToken a = ''''"
    by (cases v) (simp_all add: serverToken_def)
  then have "serverToken ` set (xs @ a # ys) - {''''} = serverToken ` set (xs @ ys) - {''''}"
    by auto
  with tok show ?thesis
    by (simp add: countQuota_closed)
qed

theorem non_string_token_counts_alone_witness:
  "metadata (ex_ann ''a2'' ''foo'' (Some (JNumber 7)))
     = Some (Mapping.update tokenkey (JNumber 7) Mapping.empty)
   \<and> Mapping.lookup (Mapping.update tokenkey (JNumber 7) Mapping.empty) tokenkey
     = Some (JNumber 7)
   \<and> (\<forall>s. JNumber 7 \<noteq> JString s)
   \<and> serverToken (ex_ann ''a2'' ''foo'' (Some (JNumber 7))) = ''''
   \<and> countQuota [ex_ann ''a1'' ''foo'' (Some (JNumber 7)),
                 ex_ann ''a2'' ''foo'' (Some (JNumber 7))] Map.empty 0 = 2"
proof -
  have m: "metadata (ex_ann ''a2'' ''foo'' (Some (JNumber 7)))
     = Some (Mapping.update tokenkey (JNumber 7) Mapping.empty)"
    by (simp add: ex_ann_def)
  have l: "Mapping.lookup (Mapping.update tokenkey (JNumber 7) Mapping.empty) tokenkey
     = Some (JNumber 7)"
    by simp
  have n: "\<forall>s. JNumber 7 \<noteq> JString s" by simp
  have one: "countQuota [ex_ann ''a1'' ''foo'' (Some (JNumber 7))] Map.empty 0 = 1"
    by (simp add: serverToken_def ex_ann_def)
  from non_string_token_counts_alone
    [OF m l n, of "[ex_ann ''a1'' ''foo'' (Some (JNumber 7))]" "[]"] m l n one
  show ?thesis by simp
qed

section \<open>One outcome per announcement\<close>

lemma results_checkInstances:
  "results (checkInstances net sched anns acc) =
     results acc @ map (\<lambda>i. probeResult (anns ! i) (net i)) sched"
  unfolding checkInstances_def
  by (induction sched arbitrary: acc) (simp_all add: checkAnnouncement_probeResult results_add)

lemma results_run:
  "results (run c net sched acc) =
     results acc @ quotaResult c (countQuota (matching c) Map.empty 0)
       # (if skipHealthcheck c then []
          else map (\<lambda>i. probeResult (matching c ! i) (net i)) sched)"
  by (simp add: run_def Let_def results_checkInstances checkQuota_def results_add)

text \<open>
  Claim C8. A run of the Go core on a fresh accumulator leaves the quota result first
  and, unless the health check is skipped, after it the probe results in completion
  order: for a schedule that is a permutation of the matched announcements' positions,
  these are, as a multiset, exactly one result per matched announcement (an error
  becomes a result like a response does), so the run leaves one result more than there
  are matched announcements. With the health check skipped the quota result is the only
  one.
\<close>

theorem one_outcome_per_announcement:
  assumes "valid_sched sched (length (matching c))"
  shows "results (run c net sched newAccumulator) =
           quotaResult c (countQuota (matching c) Map.empty 0)
             # (if skipHealthcheck c then []
                else map (\<lambda>i. probeResult (matching c ! i) (net i)) sched)
         \<and> mset (tl (results (run c net sched newAccumulator))) =
             (if skipHealthcheck c then {#}
              else mset (map (\<lambda>i. probeResult (matching c ! i) (net i))
                           [0..<length (matching c)]))
         \<and> int (length (results (run c net sched newAccumulator))) =
             1 + (if skipHealthcheck c then 0 else int (length (matching c)))"
proof -
  let ?f = "\<lambda>i. probeResult (matching c ! i) (net i)"
  from assms have perm: "mset sched = mset [0..<length (matching c)]"
    by (simp add: valid_sched_def)
  then have "mset (map ?f sched) = mset (map ?f [0..<length (matching c)])"
    by simp
  moreover from perm have "length sched = length (matching c)"
    by (metis length_upt minus_nat.diff_0 size_mset)
  ultimately show ?thesis
    by (simp add: results_run newAccumulator_def)
qed

theorem one_outcome_per_announcement_witness:
  "valid_sched [1, 0] (length (matching ex_check))
   \<and> map status (results (run ex_check ex_net [1, 0] newAccumulator))
     = [StatusOK, StatusWarn, StatusOK]
   \<and> map status (results (run (ex_check\<lparr>skipHealthcheck := True\<rparr>) ex_net [1, 0] newAccumulator))
     = [StatusOK]"
proof -
  have m: "matching ex_check = [ex_ann ''a1'' ''foo'' None, ex_ann ''a2'' ''foo'' None]"
    "matching (ex_check\<lparr>skipHealthcheck := True\<rparr>)
       = [ex_ann ''a1'' ''foo'' None, ex_ann ''a2'' ''foo'' None]"
    by (simp_all add: matching_def ex_check_def ex_state_def ex_ann_def)
  have v: "valid_sched [1, 0] (length (matching ex_check))"
    "valid_sched [1, 0] (length (matching (ex_check\<lparr>skipHealthcheck := True\<rparr>)))"
    by (simp_all add: m valid_sched_def upt_rec)
  have q: "status (quotaResult c0 2) = StatusOK" if "crit c0 = 1" "warn c0 = 2" for c0
    using that by (simp add: quotaResult_def)
  have cnt: "countQuota [ex_ann ''a1'' ''foo'' None, ex_ann ''a2'' ''foo'' None] Map.empty 0 = 2"
    by (simp add: serverToken_def ex_ann_def)
  have f: "skipHealthcheck ex_check = False" "crit ex_check = 1" "warn ex_check = 2"
    by (simp_all add: ex_check_def)
  from one_outcome_per_announcement [OF v(1), of ex_net, unfolded m cnt]
    one_outcome_per_announcement [OF v(2), of ex_net, unfolded m cnt] v(1)
  show ?thesis
    by (simp add: q f probeResult_def ex_net_def statusFor_family)
qed

section \<open>The legacy script: sorting and the re-check\<close>

subsection \<open>The sorted results\<close>

lemma mset_sort_results: "mset (sort_results rs) = mset rs"
  by (simp add: sort_results_def)

lemma set_sort_results: "set (sort_results rs) = set rs"
  by (simp add: sort_results_def)

lemma length_sort_results: "length (sort_results rs) = length rs"
  by (simp add: sort_results_def)

lemma sort_results_Nil_iff: "sort_results rs = [] \<longleftrightarrow> rs = []"
  using length_sort_results [of rs] by (metis length_0_conv)

lemma sort_results_desc: "sorted_wrt (\<lambda>x y. code y \<le> code x) (sort_results rs)"
proof -
  let ?key = "\<lambda>r. (code r, message_py r)"
  have "sorted (map ?key (sort_key ?key (rev rs)))" by (rule sorted_sort_key)
  then have "sorted_wrt (\<lambda>x y. ?key x \<le> ?key y) (sort_key ?key (rev rs))"
    by (simp only: sorted_map)
  then have "sorted_wrt (\<lambda>x y. ?key y \<le> ?key x) (rev (sort_key ?key (rev rs)))"
    by (simp only: sorted_wrt_rev)
  moreover have "?key y \<le> ?key x \<Longrightarrow> code y \<le> code x" for x y :: Result
    by (auto simp: less_eq_prod_def)
  ultimately show ?thesis
    unfolding sort_results_def by (rule sorted_wrt_mono_rel [rotated]) simp
qed

lemma desc_hd_max:
  "sorted_wrt (\<lambda>x y. code y \<le> code x) xs \<Longrightarrow> r \<in> set xs \<Longrightarrow> code r \<le> code (hd xs)"
  by (cases xs) auto

lemma hd_sort_results_max:
  "r \<in> set rs \<Longrightarrow> code r \<le> code (hd (sort_results rs))"
  using desc_hd_max [OF sort_results_desc, of r rs] by (simp add: set_sort_results)

lemma hd_sort_results_mem:
  "rs \<noteq> [] \<Longrightarrow> hd (sort_results rs) \<in> set rs"
  using hd_in_set [of "sort_results rs"] by (simp add: sort_results_Nil_iff set_sort_results)

lemma filter_sort_results_length:
  "length (filter P (sort_results rs)) = length (filter P rs)"
proof -
  have "mset (filter P (sort_results rs)) = mset (filter P rs)"
    by (simp add: mset_sort_results)
  then show ?thesis by (metis size_mset)
qed

subsection \<open>The downgrade loop\<close>

lemma downgrade_id: "\<not> stale fresh r \<Longrightarrow> downgrade fresh r = r"
  by (simp add: downgrade_def)

lemma stale_code: "stale fresh r \<Longrightarrow> code r = 2"
  by (simp add: stale_def)

lemma downgrade_loop_sorted:
  assumes "sorted_wrt (\<lambda>x y. code y \<le> code x) xs" and "\<forall>r\<in>set xs. code r \<le> 2"
  shows "downgrade_loop fresh xs =
           (map (downgrade fresh) xs, int (length (filter (stale fresh) xs)))"
  using assms
proof (induction xs)
  case Nil
  show ?case by simp
next
  case (Cons x xs)
  then have IH: "downgrade_loop fresh xs =
      (map (downgrade fresh) xs, int (length (filter (stale fresh) xs)))"
    by simp
  show ?case
  proof (cases "code x = 2")
    case False
    with Cons.prems have "\<forall>r\<in>set (x # xs). code r \<noteq> 2" by auto
    then have ns: "\<forall>r\<in>set (x # xs). \<not> stale fresh r" using stale_code by blast
    then have "map (downgrade fresh) (x # xs) = x # xs"
      by (simp add: downgrade_id map_idI)
    moreover from ns have "filter (stale fresh) (x # xs) = []" by simp
    moreover from False have "downgrade_loop fresh (x # xs) = (x # xs, 0)" by simp
    ultimately show ?thesis by simp
  next
    case True
    show ?thesis
    proof (cases "stale fresh x")
      case st: True
      with True obtain ann where "announcement x = Some ann" "ann \<notin> set fresh"
        by (auto simp: stale_def split: option.splits)
      with True st show ?thesis
        by (simp add: IH downgrade_def)
    next
      case st: False
      with True have "announcement x = None \<or> (\<exists>ann. announcement x = Some ann \<and> ann \<in> set fresh)"
        by (auto simp: stale_def split: option.splits)
      with True st show ?thesis
        by (auto simp: IH downgrade_id)
    qed
  qed
qed

subsection \<open>Codes of collected results\<close>

lemma handle_response_code:
  assumes "handle_response lib a seen chk = Inr (r, seen1)"
  shows "code r = 0 \<or> code r = 1 \<or> code r = 2"
proof (cases chk)
  case (Response_ok st bd dur uri ct ann)
  with handle_response_ok [of lib a seen st bd dur uri ct ann] assms show ?thesis
    by (auto split: if_splits)
next
  case (Response_exc uri ann exc tb)
  with handle_response_exc [of lib a seen uri ann exc tb] assms show ?thesis by auto
qed

lemma handle_all_codes:
  assumes "handle_all lib a chks seen acc = Inr (rs, seen1)"
    and "\<forall>r\<in>set acc. code r = 0 \<or> code r = 1 \<or> code r = 2"
  shows "(\<forall>r\<in>set rs. code r = 0 \<or> code r = 1 \<or> code r = 2) \<and> (\<exists>more. rs = acc @ more)"
  using assms
proof (induction chks arbitrary: seen acc)
  case Nil
  then show ?case by simp
next
  case (Cons chk chks)
  from Cons.prems(1) obtain r s1 where
    h: "handle_response lib a seen chk = Inr (r, s1)"
    and rest: "handle_all lib a chks s1 (acc @ [r]) = Inr (rs, seen1)"
    by (auto split: sum.splits)
  from handle_response_code [OF h] Cons.prems(2)
  have "\<forall>r\<in>set (acc @ [r]). code r = 0 \<or> code r = 1 \<or> code r = 2" by auto
  from Cons.IH [OF rest this] show ?case by auto
qed

lemma collect_codes:
  assumes "collect lib a backend anns net sched = Inr outcomes"
  shows "(\<forall>r\<in>set outcomes. code r = 0 \<or> code r = 1 \<or> code r = 2) \<and> outcomes \<noteq> []"
proof -
  from assms obtain cnt q where
    q: "make_announcement_result a (announcement_code a cnt) cnt backend = Inr q"
    and rest: "(if do_healthcheck a
         then map_sum id fst
                (handle_all lib a
                   (map (\<lambda>i. check_endpoint lib a (anns ! i) (net i)) sched) {} [q])
         else Inr [q]) = Inr outcomes"
    by (auto simp: collect_def split: sum.splits)
  from q have qc: "code q = 0 \<or> code q = 1 \<or> code q = 2"
    using Result_init_Inr by (auto simp: make_announcement_result_def)
  show ?thesis
  proof (cases "do_healthcheck a")
    case False
    with rest qc show ?thesis by auto
  next
    case True
    with rest obtain seen1 where
      "handle_all lib a (map (\<lambda>i. check_endpoint lib a (anns ! i) (net i)) sched) {} [q]
        = Inr (outcomes, seen1)"
      by (cases "handle_all lib a (map (\<lambda>i. check_endpoint lib a (anns ! i) (net i)) sched) {} [q]")
        auto
    from handle_all_codes [OF this] qc show ?thesis by auto
  qed
qed

lemma finish_unfold:
  assumes "outcomes \<noteq> []"
  shows "finish a reply2 outcomes =
     (case (if code (hd (sort_results outcomes)) = 2 \<and> do_healthcheck a
            then recheck a reply2 (sort_results outcomes)
            else Inr (sort_results outcomes)) of
        Inl e \<Rightarrow> Inl e
      | Inr [] \<Rightarrow> Inl IndexError
      | Inr (f0 # fs) \<Rightarrow> Inr (code f0, f0 # fs))"
proof -
  from assms obtain r0 rs where "sort_results outcomes = r0 # rs"
    by (cases "sort_results outcomes") (simp_all add: sort_results_Nil_iff)
  then show ?thesis by (simp add: finish_def)
qed

lemma Main_run_unfold:
  assumes "get_announcements a reply1 = Inr (backend, anns)"
    and "collect lib a backend anns net sched = Inr outcomes"
  shows "Main_run lib a reply1 net sched reply2 = finish a reply2 outcomes"
  using assms by (simp add: Main_run_def)


text \<open>
  The sample run of the script used in the instances below: the count is 2 and not below
  the thresholds; the probe of \<open>a2\<close> completes first.
\<close>

lemma ex_get:
  "get_announcements ex_args (Inr (None, ex_state))
   = Inr (None, [ex_ann ''a1'' ''foo'' None, ex_ann ''a2'' ''foo'' None])"
  by (simp add: get_announcements_def ex_args_def ex_state_def ex_ann_def)

lemma ex_collect:
  "collect ex_lib ex_args None [ex_ann ''a1'' ''foo'' None, ex_ann ''a2'' ''foo'' None]
     ex_http [1, 0]
   = Inr [\<lparr>code = 0,
           message_py =
             ''announcements ok: 2\<newline>crit./warn thresh.: 1/2\<newline>disco backend: None'',
           announcement = None\<rparr>,
         \<lparr>code = 2,
           message_py =
             ''health critical: 503 from endpoint\<newline>down\<newline>duration 0.012s\<newline>check URI http://a2/health'',
           announcement = Some (ex_ann ''a2'' ''foo'' None)\<rparr>,
         \<lparr>code = 0,
           message_py =
             ''health ok: 200 from endpoint\<newline>duration 0.012s\<newline>check URI http://a1/health'',
           announcement = Some (ex_ann ''a1'' ''foo'' None)\<rparr>]"
  by (simp add: collect_def count_announcements_def ex_ann_def
      announcement_code_def ex_args_def make_announcement_result_def Result_init_def codemap_def
      check_endpoint_def ex_http_def ex_lib_def handle_response_def make_response_result_def
      create_with_uri_def show_int_def show_nat.simps show_backend_def Let_def)

lemma ex_sorted:
  "sort_results
     [\<lparr>code = 0,
       message_py =
         ''announcements ok: 2\<newline>crit./warn thresh.: 1/2\<newline>disco backend: None'',
       announcement = None\<rparr>,
      \<lparr>code = 2,
       message_py =
         ''health critical: 503 from endpoint\<newline>down\<newline>duration 0.012s\<newline>check URI http://a2/health'',
       announcement = Some (ex_ann ''a2'' ''foo'' None)\<rparr>,
      \<lparr>code = 0,
       message_py =
         ''health ok: 200 from endpoint\<newline>duration 0.012s\<newline>check URI http://a1/health'',
       announcement = Some (ex_ann ''a1'' ''foo'' None)\<rparr>]
   = [\<lparr>code = 2,
       message_py =
         ''health critical: 503 from endpoint\<newline>down\<newline>duration 0.012s\<newline>check URI http://a2/health'',
       announcement = Some (ex_ann ''a2'' ''foo'' None)\<rparr>,
      \<lparr>code = 0,
       message_py =
         ''health ok: 200 from endpoint\<newline>duration 0.012s\<newline>check URI http://a1/health'',
       announcement = Some (ex_ann ''a1'' ''foo'' None)\<rparr>,
      \<lparr>code = 0,
       message_py =
         ''announcements ok: 2\<newline>crit./warn thresh.: 1/2\<newline>disco backend: None'',
       announcement = None\<rparr>]"
  by (simp add: sort_results_def)

text \<open>
  Claim C7. When the results' worst code is critical, the health check is enabled and
  the re-check's fetch of the announcements fails, the script returns the sorted results
  unchanged (so every critical result stays critical), followed by exactly one new
  result, a warning that reports the failed re-check; the exit code is 2.
\<close>

theorem recheck_failure_keeps_criticals:
  assumes "get_announcements a reply1 = Inr (backend, anns)"
    and "collect lib a backend anns net sched = Inr outcomes"
    and "do_healthcheck a"
    and "code (hd (sort_results outcomes)) = 2"
  shows "Main_run lib a reply1 net sched (Inl tb) =
           Inr (2, sort_results outcomes
                   @ [\<lparr>code = 1,
                        message_py = ''announcements warning: failed to re-check\<newline>'' @ tb,
                        announcement = None\<rparr>])"
proof -
  from collect_codes [OF assms(2)] have ne: "outcomes \<noteq> []" by simp
  then obtain r0 rs where s: "sort_results outcomes = r0 # rs"
    by (cases "sort_results outcomes") (simp_all add: sort_results_Nil_iff)
  with assms(4) have r0: "code r0 = 2" by simp
  have "recheck a (Inl tb) (sort_results outcomes) =
          Inr (sort_results outcomes
               @ [\<lparr>code = 1,
                    message_py = ''announcements warning: failed to re-check\<newline>'' @ tb,
                    announcement = None\<rparr>])"
    by (simp add: recheck_def get_announcements_def Result_init_def codemap_def)
  with assms(3,4) s r0 show ?thesis
    unfolding Main_run_unfold [OF assms(1,2)] finish_unfold [OF ne] by simp
qed

theorem recheck_failure_keeps_criticals_witness:
  "do_healthcheck ex_args
   \<and> map_sum id (map_prod id (map code))
       (Main_run ex_lib ex_args (Inr (None, ex_state)) ex_http [1, 0] (Inl ''timed out''))
     = Inr (2, [2, 0, 0, 1])"
proof -
  have h3: "do_healthcheck ex_args" by (simp add: ex_args_def)
  have h4: "code (hd (sort_results
     [\<lparr>code = 0,
       message_py =
         ''announcements ok: 2\<newline>crit./warn thresh.: 1/2\<newline>disco backend: None'',
       announcement = None\<rparr>,
      \<lparr>code = 2,
       message_py =
         ''health critical: 503 from endpoint\<newline>down\<newline>duration 0.012s\<newline>check URI http://a2/health'',
       announcement = Some (ex_ann ''a2'' ''foo'' None)\<rparr>,
      \<lparr>code = 0,
       message_py =
         ''health ok: 200 from endpoint\<newline>duration 0.012s\<newline>check URI http://a1/health'',
       announcement = Some (ex_ann ''a1'' ''foo'' None)\<rparr>])) = 2"
    unfolding ex_sorted by simp
  from recheck_failure_keeps_criticals [OF ex_get ex_collect h3 h4, of "''timed out''"] h3
  show ?thesis
    unfolding ex_sorted by simp
qed

text \<open>
  Claim C1. When the results' worst code is critical, the health check is enabled and
  the re-check's fetch succeeds, the loop over the sorted results turns every critical
  result whose announcement is not in the fresh list into a warning whose message ends
  with the downgrade note, leaves every other result as it is, and counts the
  downgrades. The comparison is Python's \<^verbatim>\<open>not in\<close>, equality of the whole announcement;
  an announcement whose id is gone from the fresh list is in particular not in it. With
  no downgrade the script returns the sorted results; otherwise it appends a warning
  that reports the count and the backend and sorts again. If the only critical result is
  downgraded, the script's exit code is 1, a warning.
\<close>

theorem recheck_downgrades_stale:
  assumes "get_announcements a reply1 = Inr (backend, anns)"
    and "collect lib a backend anns net sched = Inr outcomes"
    and "do_healthcheck a"
    and "code (hd (sort_results outcomes)) = 2"
    and "get_announcements a reply2 = Inr (backend2, fresh)"
  shows "downgrade_loop fresh (sort_results outcomes) =
           (map (downgrade fresh) (sort_results outcomes),
            int (length (filter (stale fresh) outcomes)))
       \<and> (\<forall>r ann. code r = 2 \<and> announcement r = Some ann
             \<and> announcementId ann \<notin> announcementId ` set fresh \<longrightarrow> stale fresh r)
       \<and> Main_run lib a reply1 net sched reply2 =
           (let d = int (length (filter (stale fresh) outcomes));
                kept = map (downgrade fresh) (sort_results outcomes);
                final =
                  (if d = 0 then kept
                   else sort_results
                          (kept @ [\<lparr>code = 1,
                                    message_py = ''results warning: downgraded '' @ show_int d
                                      @ '' critical result'' @ (if d > 1 then ''s'' else '''')
                                      @ ''\<newline>differing disco backend: '' @ show_backend backend2,
                                    announcement = None\<rparr>]))
            in Inr (code (hd final), final))
       \<and> ((\<exists>r. filter (\<lambda>r. code r = 2) outcomes = [r] \<and> stale fresh r) \<longrightarrow>
            (\<exists>final. Main_run lib a reply1 net sched reply2 = Inr (1, final)))"
proof -
  let ?S = "sort_results outcomes"
  let ?d = "int (length (filter (stale fresh) outcomes))"
  let ?kept = "map (downgrade fresh) ?S"
  let ?sum = "\<lparr>code = 1,
               message_py = ''results warning: downgraded '' @ show_int ?d
                 @ '' critical result'' @ (if ?d > 1 then ''s'' else '''')
                 @ ''\<newline>differing disco backend: '' @ show_backend backend2,
               announcement = None\<rparr>"
  let ?final = "if ?d = 0 then ?kept else sort_results (?kept @ [?sum])"
  from collect_codes [OF assms(2)] have ne: "outcomes \<noteq> []"
    and codes: "\<forall>r\<in>set outcomes. code r = 0 \<or> code r = 1 \<or> code r = 2" by simp_all
  from codes have le2: "\<forall>r\<in>set ?S. code r \<le> 2"
    by (auto simp: set_sort_results)
  have loop: "downgrade_loop fresh ?S = (?kept, ?d)"
    using downgrade_loop_sorted [OF sort_results_desc le2, of fresh]
    by (simp add: filter_sort_results_length)
  have by_id: "\<forall>r ann. code r = 2 \<and> announcement r = Some ann
       \<and> announcementId ann \<notin> announcementId ` set fresh \<longrightarrow> stale fresh r"
    by (auto simp: stale_def)
  have re: "recheck a reply2 ?S = Inr ?final"
    by (simp add: recheck_def assms(5) loop Result_init_def codemap_def)
  have fne: "?final \<noteq> []"
    using ne by (auto simp: sort_results_Nil_iff)
  then obtain f0 fs where f: "?final = f0 # fs" by (cases ?final) auto
  have run: "Main_run lib a reply1 net sched reply2 = Inr (code (hd ?final), ?final)"
    unfolding Main_run_unfold [OF assms(1,2)] finish_unfold [OF ne]
    using assms(3,4) re f by simp
  have sole: "\<exists>final. Main_run lib a reply1 net sched reply2 = Inr (1, final)"
    if "\<exists>r. filter (\<lambda>r. code r = 2) outcomes = [r] \<and> stale fresh r"
  proof -
    from that obtain r where r: "filter (\<lambda>r. code r = 2) outcomes = [r]" "stale fresh r"
      by blast
    have "r \<in> set (filter (\<lambda>r. code r = 2) outcomes)" by (simp add: r(1))
    then have rin: "r \<in> set outcomes" by simp
    have all_stale: "stale fresh x" if "x \<in> set outcomes" "code x = 2" for x
    proof -
      from that have "x \<in> set (filter (\<lambda>r. code r = 2) outcomes)" by simp
      with r show ?thesis by simp
    qed
    from rin r(2) have "filter (stale fresh) outcomes \<noteq> []"
      by (auto simp: filter_empty_conv)
    then have d: "?d \<noteq> 0" by simp
    have kept_le: "code x \<le> 1" if "x \<in> set ?kept" for x
    proof -
      from that obtain y where y: "y \<in> set outcomes" "x = downgrade fresh y"
        by (auto simp: set_sort_results)
      show ?thesis
      proof (cases "code y = 2")
        case True
        with all_stale y show ?thesis by (simp add: downgrade_def)
      next
        case False
        with codes y have "code y \<le> 1" by auto
        moreover from False have "\<not> stale fresh y" using stale_code by blast
        ultimately show ?thesis using y by (simp add: downgrade_id)
      qed
    qed
    let ?F = "sort_results (?kept @ [?sum])"
    have "hd ?F \<in> set (?kept @ [?sum])" by (rule hd_sort_results_mem) simp
    then have "code (hd ?F) \<le> 1" using kept_le by auto
    moreover have "code ?sum \<le> code (hd ?F)" by (rule hd_sort_results_max) simp
    ultimately have "code (hd ?F) = 1" by simp
    with run d show ?thesis by simp
  qed
  from loop by_id run sole show ?thesis by (simp add: Let_def)
qed

text \<open>
  The sample run with \<open>a2\<close> gone from the fresh list: its critical result was the only
  one, and the script exits with 1.
\<close>

theorem recheck_downgrades_stale_witness:
  "do_healthcheck ex_args
   \<and> get_announcements ex_args
       (Inr (Some ''disco-2'', [ex_ann ''a1'' ''foo'' None, ex_ann ''b1'' ''bar'' None]))
     = Inr (Some ''disco-2'', [ex_ann ''a1'' ''foo'' None])
   \<and> (\<exists>final.
        Main_run ex_lib ex_args (Inr (None, ex_state)) ex_http [1, 0]
          (Inr (Some ''disco-2'', [ex_ann ''a1'' ''foo'' None, ex_ann ''b1'' ''bar'' None]))
        = Inr (1, final))"
proof -
  let ?q = "\<lparr>code = 0,
       message_py =
         ''announcements ok: 2\<newline>crit./warn thresh.: 1/2\<newline>disco backend: None'',
       announcement = None\<rparr>"
  let ?r2 = "\<lparr>code = 2,
       message_py =
         ''health critical: 503 from endpoint\<newline>down\<newline>duration 0.012s\<newline>check URI http://a2/health'',
       announcement = Some (ex_ann ''a2'' ''foo'' None)\<rparr>"
  let ?r1 = "\<lparr>code = 0,
       message_py =
         ''health ok: 200 from endpoint\<newline>duration 0.012s\<newline>check URI http://a1/health'',
       announcement = Some (ex_ann ''a1'' ''foo'' None)\<rparr>"
  have h3: "do_healthcheck ex_args" by (simp add: ex_args_def)
  have h4: "code (hd (sort_results [?q, ?r2, ?r1])) = 2"
    unfolding ex_sorted by simp
  have h5: "get_announcements ex_args
       (Inr (Some ''disco-2'', [ex_ann ''a1'' ''foo'' None, ex_ann ''b1'' ''bar'' None]))
     = Inr (Some ''disco-2'', [ex_ann ''a1'' ''foo'' None])"
    by (simp add: get_announcements_def ex_args_def ex_ann_def)
  have sole: "\<exists>r. filter (\<lambda>r. code r = 2) [?q, ?r2, ?r1] = [r]
                \<and> stale [ex_ann ''a1'' ''foo'' None] r"
    by (simp add: stale_def ex_ann_def)
  from recheck_downgrades_stale [OF ex_get ex_collect h3 h4 h5] sole h3 h5
  show ?thesis by blast
qed

section \<open>Core and legacy compared\<close>

lemma handle_response_total:
  "\<exists>r seen1. handle_response lib a seen chk = Inr (r, seen1)
     \<and> code r = response_code chk \<and> announcement r = Some (response_announcement chk)"
proof (cases chk)
  case (Response_ok st bd dur uri ct ann)
  with handle_response_ok [of lib a seen st bd dur uri ct ann] show ?thesis by auto
next
  case (Response_exc uri ann exc tb)
  with handle_response_exc [of lib a seen uri ann exc tb] show ?thesis by auto
qed

lemma handle_all_total:
  "\<exists>rs seen1. handle_all lib a chks seen acc = Inr (acc @ rs, seen1)
     \<and> map code rs = map response_code chks
     \<and> map announcement rs = map (\<lambda>chk. Some (response_announcement chk)) chks"
proof (induction chks arbitrary: seen acc)
  case Nil
  show ?case by simp
next
  case (Cons chk chks)
  from handle_response_total [of lib a seen chk] obtain r s1 where
    h: "handle_response lib a seen chk = Inr (r, s1)"
    "code r = response_code chk" "announcement r = Some (response_announcement chk)"
    by blast
  from Cons.IH [of s1 "acc @ [r]"] obtain rs seen1 where
    "handle_all lib a chks s1 (acc @ [r]) = Inr ((acc @ [r]) @ rs, seen1)"
    "map code rs = map response_code chks"
    "map announcement rs = map (\<lambda>chk. Some (response_announcement chk)) chks"
    by blast
  with h have "handle_all lib a (chk # chks) seen acc = Inr (acc @ (r # rs), seen1)
     \<and> map code (r # rs) = map response_code (chk # chks)
     \<and> map announcement (r # rs) = map (\<lambda>chk. Some (response_announcement chk)) (chk # chks)"
    by simp
  then show ?case by blast
qed

lemma serverToken_token_of:
  "serverToken a = (case token_of a of Some (JString s) \<Rightarrow> s | _ \<Rightarrow> '''')"
  by (simp add: serverToken_def token_of_def split: option.splits)

lemma counts_agree:
  assumes "\<forall>ann\<in>set anns. token_of ann = None \<or> (\<exists>s. s \<noteq> '''' \<and> token_of ann = Some (JString s))"
  shows "count_announcements anns = Inr (countQuota anns Map.empty 0)"
proof -
  have none: "serverToken x = '''' \<longleftrightarrow> token_of x = None" if "x \<in> set anns" for x
    using assms that by (auto simp: serverToken_token_of)
  then have f: "filter (\<lambda>a. serverToken a = '''') anns = filter (\<lambda>a. token_of a = None) anns"
    by (auto intro: filter_cong)
  have t: "serverToken ` set anns - {''''} = string_tokens anns"
  proof (rule set_eqI)
    fix s
    show "s \<in> serverToken ` set anns - {''''} \<longleftrightarrow> s \<in> string_tokens anns"
    proof
      assume "s \<in> serverToken ` set anns - {''''}"
      then obtain x where x: "x \<in> set anns" "serverToken x = s" "s \<noteq> ''''" by auto
      with assms have "token_of x = Some (JString s)"
        by (auto simp: serverToken_token_of)
      with x show "s \<in> string_tokens anns" by (auto simp: string_tokens_def)
    next
      assume "s \<in> string_tokens anns"
      then obtain x where x: "x \<in> set anns" "token_of x = Some (JString s)"
        by (auto simp: string_tokens_def)
      with assms have "s \<noteq> ''''" by auto
      moreover from x have "serverToken x = s" by (simp add: serverToken_token_of)
      ultimately show "s \<in> serverToken ` set anns - {''''}" using x by auto
    qed
  qed
  from assms have "\<forall>a\<in>set anns. token_of a = None \<or> (\<exists>s. token_of a = Some (JString s))"
    by blast
  from count_loop_closed [OF this, of "{}" 0]
  have "count_announcements anns =
      Inr (int (length (filter (\<lambda>a. token_of a = None) anns)) + int (card (string_tokens anns)))"
    by (simp add: count_announcements_def)
  moreover have "{t. Map.empty t = Some True} = ({} :: string set)" by simp
  then have "countQuota anns Map.empty 0 =
      int (length (filter (\<lambda>a. token_of a = None) anns)) + int (card (string_tokens anns))"
    using countQuota_closed [of anns Map.empty 0] f t by simp
  ultimately show ?thesis by simp
qed

lemma countQuota_nonneg: "0 \<le> countQuota anns Map.empty 0"
  by (simp add: countQuota_closed)

lemma quota_levels_agree:
  "0 \<le> cnt \<Longrightarrow> critical_fewer a = crit c \<Longrightarrow> warn_fewer a = warn c \<Longrightarrow>
   status_of_code (announcement_code a cnt) = status (quotaResult c cnt)"
  by (simp add: announcement_code_def quotaResult_def status_of_code_def)

lemma status_of_response_code:
  "status_of_code (response_code (Response_ok st bd dur uri ct ann)) = statusFor st"
  by (simp add: statusFor_family status_of_code_def)

lemma status_of_code_mono:
  assumes "c1 = 0 \<or> c1 = 1 \<or> c1 = 2" and "c2 = 0 \<or> c2 = 1 \<or> c2 = 2" and "c1 \<le> c2"
  shows "statusToOrd (status_of_code c1) \<le> statusToOrd (status_of_code c2)"
  using assms by (auto simp: status_of_code_def)

text \<open>What the collection phase returns, for any inputs on which the count succeeds.\<close>

lemma collect_shape:
  assumes "count_announcements anns = Inr cnt"
  shows "\<exists>q rs. collect lib a backend anns net sched = Inr (q # rs)
     \<and> code q = announcement_code a cnt \<and> announcement q = None
     \<and> (if do_healthcheck a
         then map code rs = map (\<lambda>i. response_code (check_endpoint lib a (anns ! i) (net i))) sched
            \<and> map announcement rs = map (\<lambda>i. Some (anns ! i)) sched
         else rs = [])"
proof -
  have "announcement_code a cnt = 0 \<or> announcement_code a cnt = 1 \<or> announcement_code a cnt = 2"
    by (simp add: announcement_code_def)
  from Result_init_codes [OF this] obtain q where
    q: "make_announcement_result a (announcement_code a cnt) cnt backend = Inr q"
    "code q = announcement_code a cnt" "announcement q = None"
    unfolding make_announcement_result_def by fastforce
  show ?thesis
  proof (cases "do_healthcheck a")
    case False
    with assms q show ?thesis by (simp add: collect_def)
  next
    case True
    let ?chks = "map (\<lambda>i. check_endpoint lib a (anns ! i) (net i)) sched"
    from handle_all_total [of lib a ?chks "{}" "[q]"] obtain rs seen1 where
      h: "handle_all lib a ?chks {} [q] = Inr ([q] @ rs, seen1)"
      "map code rs = map response_code ?chks"
      "map announcement rs = map (\<lambda>chk. Some (response_announcement chk)) ?chks"
      by blast
    have "response_announcement (check_endpoint lib a ann out) = ann" for ann out
      by (cases out) (simp_all add: check_endpoint_def)
    with h(3) have "map announcement rs = map (\<lambda>i. Some (anns ! i)) sched"
      by (simp add: comp_def)
    with True assms q h show ?thesis
      by (simp add: collect_def comp_def)
  qed
qed

lemma worstStatus_run_max:
  assumes "h \<in> set (results (run c net sched newAccumulator))"
    and "\<forall>r\<in>set (results (run c net sched newAccumulator)).
           statusToOrd (status r) \<le> statusToOrd (status h)"
  shows "worstStatus (run c net sched newAccumulator) = status h"
proof (rule statusToOrd_inj)
  let ?R = "results (run c net sched newAccumulator)"
  have run_fold: "run c net sched newAccumulator = foldl add newAccumulator ?R"
  proof -
    have "checkInstances net s anns acc =
          foldl add acc (map (\<lambda>i. probeResult (anns ! i) (net i)) s)" for s anns acc
      unfolding checkInstances_def
      by (induction s arbitrary: acc) (simp_all add: checkAnnouncement_probeResult)
    then show ?thesis
      by (simp add: run_def Let_def checkQuota_def results_foldl_add results_add
          newAccumulator_def)
  qed
  have "statusToOrd (worstStatus (foldl add newAccumulator ?R)) =
        Max (insert 0 (statusToOrd ` status ` set ?R))"
    by (simp add: worstStatus_foldl_add newAccumulator_def)
  also have "\<dots> = statusToOrd (status h)"
  proof (rule Max_eqI)
    show "finite (insert 0 (statusToOrd ` status ` set ?R))" by simp
    show "statusToOrd (status h) \<in> insert 0 (statusToOrd ` status ` set ?R)"
      using assms(1) by blast
    fix y assume "y \<in> insert 0 (statusToOrd ` status ` set ?R)"
    moreover have "0 \<le> statusToOrd (status h)" by (cases "status h") simp_all
    ultimately show "y \<le> statusToOrd (status h)" using assms(2) by auto
  qed
  finally show "statusToOrd (worstStatus (run c net sched newAccumulator)) = statusToOrd (status h)"
    using run_fold by simp
qed

lemma recheck_nothing_stale:
  assumes codes: "\<forall>r\<in>set outcomes. code r = 0 \<or> code r = 1 \<or> code r = 2"
    and fresh: "get_announcements a reply2 = Inr (backend2, fresh)"
    and present: "\<forall>r\<in>set outcomes. \<forall>ann. announcement r = Some ann \<longrightarrow> ann \<in> set fresh"
  shows "recheck a reply2 (sort_results outcomes) = Inr (sort_results outcomes)"
proof -
  let ?S = "sort_results outcomes"
  from codes have le2: "\<forall>r\<in>set ?S. code r \<le> 2" by (auto simp: set_sort_results)
  from present have ns: "\<forall>r\<in>set outcomes. \<not> stale fresh r"
    by (auto simp: stale_def split: option.splits)
  then have "filter (stale fresh) outcomes = []" by (simp add: filter_empty_conv)
  moreover have "map (downgrade fresh) ?S = ?S"
  proof (rule map_idI)
    fix x assume "x \<in> set ?S"
    then have "x \<in> set outcomes" by (simp add: set_sort_results)
    with ns show "downgrade fresh x = x" by (simp add: downgrade_id)
  qed
  ultimately have "downgrade_loop fresh ?S = (?S, 0)"
    using downgrade_loop_sorted [OF sort_results_desc le2, of fresh]
    by (simp add: filter_sort_results_length)
  then show ?thesis by (simp add: recheck_def fresh)
qed

text \<open>
  Claim C9 (as amended). The Python script is not a duplicate of the Go core: it reports
  a probe that raised as critical where the core reports a warning, it alone re-checks
  critical results, and it merges tokens that the core does not treat as tokens. Where
  none of this comes into play the two agree. Let both get the same discovery state,
  service name, thresholds and health-check switch; let every dedup token of a matched
  announcement be absent or a non-empty string; let every probe get an HTTP response,
  with the same status code in both; let both completion orders be permutations of the
  matched announcements; and let the re-check's fetch succeed and still list every
  matched announcement. Then the script returns normally, its exit code stands for the
  core's worst status, and its results carry, as a multiset, the same severities as the
  core's results.
\<close>

theorem legacy_agrees_on_responses:
  assumes service: "args_service a = service c"
    and healthcheck: "do_healthcheck a = (\<not> skipHealthcheck c)"
    and thresholds: "critical_fewer a = crit c" "warn_fewer a = warn c"
    and tokens: "\<forall>ann\<in>set (matching c).
        token_of ann = None \<or> (\<exists>s. s \<noteq> '''' \<and> token_of ann = Some (JString s))"
    and probes: "\<forall>i<length (matching c). \<exists>resp bd dur ct.
        net_go i = Inr resp \<and> net_py i = Http_response (statusCode resp) bd dur ct"
    and sched_go: "valid_sched sched_go (length (matching c))"
    and sched_py: "valid_sched sched_py (length (matching c))"
    and refetch: "set (matching c) \<subseteq> set state2"
  shows "\<exists>ec final.
      Main_run lib a (Inr (hdr, discoveryState c)) net_py sched_py (Inr (hdr2, state2))
        = Inr (ec, final)
      \<and> status_of_code ec = worstStatus (run c net_go sched_go newAccumulator)
      \<and> image_mset (\<lambda>r. status_of_code (code r)) (mset final)
        = image_mset status (mset (results (run c net_go sched_go newAccumulator)))"
proof -
  let ?anns = "matching c"
  let ?n = "length ?anns"
  let ?cnt = "countQuota ?anns Map.empty 0"
  let ?G = "results (run c net_go sched_go newAccumulator)"
  let ?reply2 = "Inr (hdr2, state2) :: string + (string option \<times> announcement list)"
  define backend where "backend = (if hdr = Some '''' then None else hdr)"
  define backend2 where "backend2 = (if hdr2 = Some '''' then None else hdr2)"
  define fresh where "fresh = filter (\<lambda>ann. serviceType ann = args_service a) state2"
  have get1: "get_announcements a (Inr (hdr, discoveryState c)) = Inr (backend, ?anns)"
    by (simp add: get_announcements_def matching_def service backend_def)
  have get2: "get_announcements a ?reply2 = Inr (backend2, fresh)"
    by (simp add: get_announcements_def backend2_def fresh_def)
  from counts_agree [OF tokens] have cnt: "count_announcements ?anns = Inr ?cnt" .
  from collect_shape [OF cnt, of lib a backend net_py sched_py] obtain q rs where
    col: "collect lib a backend ?anns net_py sched_py = Inr (q # rs)"
    and q: "code q = announcement_code a ?cnt" "announcement q = None"
    and rs: "if do_healthcheck a
         then map code rs
                = map (\<lambda>i. response_code (check_endpoint lib a (?anns ! i) (net_py i))) sched_py
            \<and> map announcement rs = map (\<lambda>i. Some (?anns ! i)) sched_py
         else rs = []"
    by blast
  let ?P = "q # rs"
  let ?S = "sort_results ?P"
  from collect_codes [OF col] have codes: "\<forall>r\<in>set ?P. code r = 0 \<or> code r = 1 \<or> code r = 2"
    by simp
  from sched_py have in_range_py: "\<forall>i\<in>set sched_py. i < ?n"
    by (metis valid_sched_def atLeastLessThan_iff mset_eq_setD set_upt)
  have present: "\<forall>r\<in>set ?P. \<forall>ann. announcement r = Some ann \<longrightarrow> ann \<in> set fresh"
  proof (intro ballI allI impI)
    fix r ann assume r: "r \<in> set ?P" "announcement r = Some ann"
    with q have "r \<in> set rs" by auto
    then have "announcement r \<in> set (map announcement rs)" by simp
    moreover from \<open>r \<in> set rs\<close> rs have "do_healthcheck a" by (auto split: if_splits)
    ultimately have "announcement r \<in> set (map (\<lambda>i. Some (?anns ! i)) sched_py)"
      using rs by simp
    with r(2) obtain i where "i \<in> set sched_py" "ann = ?anns ! i" by auto
    with in_range_py have "ann \<in> set ?anns" by simp
    then have "ann \<in> set state2" "serviceType ann = service c"
      using refetch by (auto simp: matching_def)
    then show "ann \<in> set fresh" by (simp add: fresh_def service)
  qed
  have final: "Main_run lib a (Inr (hdr, discoveryState c)) net_py sched_py ?reply2
      = Inr (code (hd ?S), ?S)"
  proof -
    have ne: "?P \<noteq> []" by simp
    then obtain s0 ss where s: "?S = s0 # ss"
      by (cases ?S) (simp_all add: sort_results_Nil_iff)
    have "recheck a ?reply2 ?S = Inr ?S"
      by (rule recheck_nothing_stale [OF codes get2 present])
    then show ?thesis
      unfolding Main_run_unfold [OF get1 col] finish_unfold [OF ne] using s by simp
  qed
  have G: "?G = quotaResult c ?cnt
      # (if skipHealthcheck c then []
         else map (\<lambda>i. probeResult (?anns ! i) (net_go i)) sched_go)"
    by (simp add: results_run newAccumulator_def)
  have quota: "status_of_code (code q) = status (quotaResult c ?cnt)"
    using quota_levels_agree [OF countQuota_nonneg thresholds] q by simp
  have probe: "status_of_code (response_code (check_endpoint lib a (?anns ! i) (net_py i)))
      = status (probeResult (?anns ! i) (net_go i))" if "i < ?n" for i
  proof -
    from probes that obtain resp bd dur ct where
      n: "net_go i = Inr resp" "net_py i = Http_response (statusCode resp) bd dur ct" by blast
    have ce: "check_endpoint lib a (?anns ! i) (net_py i) =
        Response_ok (statusCode resp) bd dur
          (urljoin lib (serviceUri (?anns ! i)) (args_endpoint a)) ct (?anns ! i)"
      by (simp add: check_endpoint_def n)
    have "status (probeResult (?anns ! i) (net_go i)) = statusFor (statusCode resp)"
      by (simp add: probeResult_def n)
    then show ?thesis
      unfolding ce by (simp only: status_of_response_code)
  qed
  have msets: "image_mset (\<lambda>r. status_of_code (code r)) (mset ?P) = image_mset status (mset ?G)"
  proof (cases "skipHealthcheck c")
    case True
    with healthcheck rs have "rs = []" by simp
    with True G quota show ?thesis by simp
  next
    case False
    with healthcheck rs have
      mc: "map code rs
           = map (\<lambda>i. response_code (check_endpoint lib a (?anns ! i) (net_py i))) sched_py"
      by simp
    have "image_mset (\<lambda>r. status_of_code (code r)) (mset rs)
        = image_mset status_of_code (mset (map code rs))"
      by (simp add: multiset.map_comp comp_def)
    also have "\<dots> = image_mset
        (\<lambda>i. status_of_code (response_code (check_endpoint lib a (?anns ! i) (net_py i))))
        (mset sched_py)"
      by (simp add: mc multiset.map_comp comp_def)
    also have "\<dots> = image_mset
        (\<lambda>i. status_of_code (response_code (check_endpoint lib a (?anns ! i) (net_py i))))
        (mset [0..<?n])"
      using sched_py by (simp add: valid_sched_def)
    also have "\<dots> = image_mset (\<lambda>i. status (probeResult (?anns ! i) (net_go i))) (mset [0..<?n])"
      by (rule image_mset_cong) (simp add: probe)
    also have "\<dots> = image_mset (\<lambda>i. status (probeResult (?anns ! i) (net_go i))) (mset sched_go)"
      using sched_go by (simp add: valid_sched_def)
    also have "\<dots> = image_mset status
        (mset (map (\<lambda>i. probeResult (?anns ! i) (net_go i)) sched_go))"
      by (simp add: multiset.map_comp comp_def)
    finally show ?thesis using False G quota by simp
  qed
  then have msets_final:
    "image_mset (\<lambda>r. status_of_code (code r)) (mset ?S) = image_mset status (mset ?G)"
    by (simp add: mset_sort_results)
  have worst: "status_of_code (code (hd ?S)) = worstStatus (run c net_go sched_go newAccumulator)"
  proof -
    have hP: "hd ?S \<in> set ?P" by (rule hd_sort_results_mem) simp
    then have "status_of_code (code (hd ?S)) \<in># image_mset (\<lambda>r. status_of_code (code r)) (mset ?P)"
      by (metis image_eqI in_image_mset set_mset_mset)
    with msets have "status_of_code (code (hd ?S)) \<in># image_mset status (mset ?G)" by simp
    then obtain g where g: "g \<in> set ?G" "status g = status_of_code (code (hd ?S))"
      by auto
    have "statusToOrd (status r) \<le> statusToOrd (status g)" if "r \<in> set ?G" for r
    proof -
      from that have "status r \<in># image_mset status (mset ?G)" by simp
      with msets have "status r \<in># image_mset (\<lambda>r. status_of_code (code r)) (mset ?P)" by simp
      then obtain p where p: "p \<in> set ?P" "status r = status_of_code (code p)" by auto
      from p(1) have "code p \<le> code (hd ?S)" by (rule hd_sort_results_max)
      with codes p(1) hP show ?thesis
        unfolding p(2) g(2) by (intro status_of_code_mono) auto
    qed
    with g show ?thesis
      using worstStatus_run_max [of g c net_go sched_go] by simp
  qed
  from final worst msets_final show ?thesis by blast
qed

text \<open>
  The end-to-end example of the specification: two instances, one answering 200 and one
  503, both still announced at the re-check; the verdict is critical on both sides.
\<close>

theorem legacy_agrees_on_responses_witness:
  "valid_sched [0, 1] (length (matching ex_check))
   \<and> valid_sched [1, 0] (length (matching ex_check))
   \<and> set (matching ex_check) \<subseteq> set ex_state
   \<and> worstStatus (run ex_check ex_net_503 [0, 1] newAccumulator) = StatusCrit
   \<and> (\<exists>ec final.
        Main_run ex_lib ex_args (Inr (None, ex_state)) ex_http [1, 0] (Inr (None, ex_state))
          = Inr (ec, final)
        \<and> status_of_code ec = worstStatus (run ex_check ex_net_503 [0, 1] newAccumulator)
        \<and> image_mset (\<lambda>r. status_of_code (code r)) (mset final)
          = image_mset status (mset (results (run ex_check ex_net_503 [0, 1] newAccumulator))))"
proof -
  have m: "matching ex_check = [ex_ann ''a1'' ''foo'' None, ex_ann ''a2'' ''foo'' None]"
    by (simp add: matching_def ex_check_def ex_state_def ex_ann_def)
  have service: "args_service ex_args = service ex_check"
    by (simp add: ex_args_def ex_check_def)
  have healthcheck: "do_healthcheck ex_args = (\<not> skipHealthcheck ex_check)"
    by (simp add: ex_args_def ex_check_def)
  have thresholds: "critical_fewer ex_args = crit ex_check" "warn_fewer ex_args = warn ex_check"
    by (simp_all add: ex_args_def ex_check_def)
  have tokens: "\<forall>ann\<in>set (matching ex_check).
      token_of ann = None \<or> (\<exists>s. s \<noteq> '''' \<and> token_of ann = Some (JString s))"
    by (simp add: m token_of_def ex_ann_def)
  have probes: "\<forall>i<length (matching ex_check). \<exists>resp bd dur ct.
      ex_net_503 i = Inr resp \<and> ex_http i = Http_response (statusCode resp) bd dur ct"
  proof (intro allI impI)
    fix i :: nat
    have "\<exists>resp. ex_net_503 i = Inr resp
        \<and> statusCode resp = (if i = 0 then 200 else 503)"
      by (simp add: ex_net_503_def)
    then obtain resp where r: "ex_net_503 i = Inr resp"
      "statusCode resp = (if i = 0 then 200 else 503)"
      by blast
    have "ex_http i = Http_response (statusCode resp)
        (if i = 0 then ''ok'' else ''down'') (12 / 1000) (Some ''text/plain'')"
      unfolding r(2) by (simp add: ex_http_def)
    with r(1) show "\<exists>resp bd dur ct.
        ex_net_503 i = Inr resp \<and> ex_http i = Http_response (statusCode resp) bd dur ct"
      by blast
  qed
  have sched_go: "valid_sched [0, 1] (length (matching ex_check))"
    by (simp add: m valid_sched_def upt_rec)
  have sched_py: "valid_sched [1, 0] (length (matching ex_check))"
    by (simp add: m valid_sched_def upt_rec)
  have refetch: "set (matching ex_check) \<subseteq> set ex_state"
    by (simp add: m ex_state_def)
  have f: "discoveryState ex_check = ex_state" "skipHealthcheck ex_check = False"
    "crit ex_check = 1" "warn ex_check = 2"
    by (simp_all add: ex_check_def)
  have worst: "worstStatus (run ex_check ex_net_503 [0, 1] newAccumulator) = StatusCrit"
    by (simp add: run_def m f checkQuota_def quotaResult_def checkInstances_def
        checkAnnouncement_def ex_net_503_def add_def newAccumulator_def worseOf_def
        statusFor_family Let_def)
  from legacy_agrees_on_responses
    [OF service healthcheck thresholds tokens probes sched_go sched_py refetch,
      of ex_lib None None]
    sched_go sched_py refetch worst f(1)
  show ?thesis by simp
qed

text \<open>
  The claim as stated fails: with the same fleet and thresholds, a first probe answered
  with 200 and a second probe refused, the core's verdict is a warning and the script's
  exit code is 2, critical.
\<close>

theorem legacy_differs_on_refused_probe:
  "worstStatus (run ex_check ex_net [1, 0] newAccumulator) = StatusWarn
   \<and> map_sum id fst
       (Main_run ex_lib ex_args (Inr (None, ex_state)) ex_http_refused [1, 0]
          (Inr (None, ex_state)))
     = Inr 2
   \<and> status_of_code 2 = StatusCrit"
proof -
  have m: "matching ex_check = [ex_ann ''a1'' ''foo'' None, ex_ann ''a2'' ''foo'' None]"
    by (simp add: matching_def ex_check_def ex_state_def ex_ann_def)
  have f: "skipHealthcheck ex_check = False" "crit ex_check = 1" "warn ex_check = 2"
    by (simp_all add: ex_check_def)
  have go: "worstStatus (run ex_check ex_net [1, 0] newAccumulator) = StatusWarn"
    by (simp add: run_def m f checkQuota_def quotaResult_def checkInstances_def
        checkAnnouncement_def ex_net_def add_def newAccumulator_def worseOf_def
        statusFor_family Let_def)
  have col: "collect ex_lib ex_args None [ex_ann ''a1'' ''foo'' None, ex_ann ''a2'' ''foo'' None]
       ex_http_refused [1, 0]
     = Inr [\<lparr>code = 0,
             message_py =
               ''announcements ok: 2\<newline>crit./warn thresh.: 1/2\<newline>disco backend: None'',
             announcement = None\<rparr>,
           \<lparr>code = 2,
             message_py = ''health critical: connection refused\<newline>check URI http://a2/health'',
             announcement = Some (ex_ann ''a2'' ''foo'' None)\<rparr>,
           \<lparr>code = 0,
             message_py =
               ''health ok: 200 from endpoint\<newline>duration 0.012s\<newline>check URI http://a1/health'',
             announcement = Some (ex_ann ''a1'' ''foo'' None)\<rparr>]"
    by (simp add: collect_def count_announcements_def ex_ann_def
        announcement_code_def ex_args_def make_announcement_result_def Result_init_def
        codemap_def check_endpoint_def ex_http_refused_def ex_lib_def handle_response_def
        make_response_result_def create_with_uri_def show_int_def show_nat.simps
        show_backend_def Let_def)
  have py: "map_sum id fst
       (Main_run ex_lib ex_args (Inr (None, ex_state)) ex_http_refused [1, 0]
          (Inr (None, ex_state)))
     = Inr 2"
    unfolding Main_run_unfold [OF ex_get col]
    by (simp add: finish_def sort_results_def recheck_def get_announcements_def ex_args_def
        ex_state_def ex_ann_def)
  from go py show ?thesis by (simp add: status_of_code_def)
qed

end
